theory Spec2Isabelle
  imports Main "HOL-Library.Char_ord" "HOL-Library.List_Lexorder"
begin

section \<open>Data model (src/server/events.ts, lines 15-60)\<close>

text \<open>
  The TypeScript interfaces are structural: \<open>EventIndexEntry\<close>, \<open>EventListEntry\<close> and
  \<open>FullEvent\<close> describe the same JavaScript object with more or fewer properties. One
  record stands for all three. A property holds a value of the type its interface
  declares, or it is absent (\<open>undefined\<close>, \<open>None\<close>): the code deletes properties
  (\<open>delete currElt.address\<close>), tests \<open>hasOwnProperty\<close> and writes \<open>js.id || 0\<close>, so absence
  is part of the model. A string is a list of code units (the type \<open>char\<close> has those
  below 256); a number is an integer (ids stay below \<open>2^53\<close>, where a double is exact).
  An object used as a dictionary is a map from its own keys; what it inherits from
  \<open>Object.prototype\<close> is left out.
  The property \<open>id\<close> is called \<open>eid\<close> here (\<open>cid\<close> for a center), and the properties of a
  center carry the prefix \<open>c\<close> where an event has a property of the same name.
\<close>

record FullEvent =
  eid :: "int option"
  startDate :: "string option"
  endDate :: "string option"
  title :: "string option"
  center :: "string option"
  fullcity :: "string option"
  weekdayRange :: "string option"
  dateRange :: "string option"
  combinedRange :: "string option"
  name :: "string option"
  address :: "string option"
  startTime :: "string option"
  description :: "string option"

type_synonym EventIndexEntry = FullEvent
type_synonym EventListEntry = FullEvent

record Center =
  cid :: string
  country :: "string option"
  users :: "string list"
  program :: "string option"
  about :: "string option"
  cname :: "string option"
  caddress :: "string option"
  cfullcity :: "string option"

record EventIndex =
  events :: "EventIndexEntry list"
  nextId :: int

text \<open>The object literal \<open>{}\<close>: every property absent.\<close>

definition emptyEvent :: FullEvent where
  "emptyEvent = \<lparr>eid = None, startDate = None, endDate = None, title = None, center = None,
     fullcity = None, weekdayRange = None, dateRange = None, combinedRange = None,
     name = None, address = None, startTime = None, description = None\<rparr>"

text \<open>JavaScript truthiness of a string-valued property: present and not the empty string.\<close>

fun truthy :: "string option \<Rightarrow> bool" where
  "truthy None = False"
| "truthy (Some v) = (v \<noteq> [])"

text \<open>\<open>x || ""\<close> for a string-valued property.\<close>

fun or_empty :: "string option \<Rightarrow> string" where
  "or_empty None = []"
| "or_empty (Some v) = v"

section \<open>Field validator (lines 184-246)\<close>

text \<open>
  The regular expressions of the validators are anchored sequences of single-character
  classes: a literal character or \<open>\d\<close> (an ASCII digit). \<open>re_test\<close> is
  \<open>/^...$/.test\<close> for such a sequence; without the \<open>m\<close> flag \<open>$\<close> matches at the end of
  the input only.
\<close>

datatype re_item = Ch char | Digit

definition is_digit :: "char \<Rightarrow> bool" where
  "is_digit c = (CHR ''0'' \<le> c \<and> c \<le> CHR ''9'')"

fun re_item_ok :: "re_item \<Rightarrow> char \<Rightarrow> bool" where
  "re_item_ok (Ch a) c = (c = a)"
| "re_item_ok Digit c = is_digit c"

fun re_test :: "re_item list \<Rightarrow> string \<Rightarrow> bool" where
  "re_test [] [] = True"
| "re_test (p # ps) (c # cs) = (re_item_ok p c \<and> re_test ps cs)"
| "re_test _ _ = False"

text \<open>\<open>/^2\d\d\d-\d\d-\d\d$/\<close> and \<open>/^\d\d:\d\d$/\<close>.\<close>

definition date_re :: "re_item list" where
  "date_re = [Ch CHR ''2'', Digit, Digit, Digit, Ch CHR ''-'', Digit, Digit, Ch CHR ''-'', Digit, Digit]"

definition time_re :: "re_item list" where
  "time_re = [Digit, Digit, Ch CHR '':'', Digit, Digit]"

fun validDate :: "string option \<Rightarrow> bool" where
  "validDate None = True"
| "validDate (Some d) = (d = [] \<or> re_test date_re d)"

fun validTime :: "string option \<Rightarrow> bool" where
  "validTime None = True"
| "validTime (Some d) = (d = [] \<or> re_test time_re d)"

text \<open>
  Dynamic property access \<open>(delta as any)[k]\<close> and \<open>(curr as any)[k] = v\<close> for the keys the
  loops use. \<open>delta.hasOwnProperty(k)\<close> is \<open>getProp k delta \<noteq> None\<close>.
\<close>

definition getProp :: "string \<Rightarrow> FullEvent \<Rightarrow> string option" where
  "getProp k e =
     (if k = ''center'' then center e
      else if k = ''startDate'' then startDate e
      else if k = ''endDate'' then endDate e
      else if k = ''title'' then title e
      else if k = ''description'' then description e
      else if k = ''startTime'' then startTime e
      else if k = ''name'' then name e
      else if k = ''address'' then address e
      else None)"

definition setProp :: "string \<Rightarrow> string option \<Rightarrow> FullEvent \<Rightarrow> FullEvent" where
  "setProp k v e =
     (if k = ''center'' then e\<lparr>center := v\<rparr>
      else if k = ''startDate'' then e\<lparr>startDate := v\<rparr>
      else if k = ''endDate'' then e\<lparr>endDate := v\<rparr>
      else if k = ''title'' then e\<lparr>title := v\<rparr>
      else if k = ''description'' then e\<lparr>description := v\<rparr>
      else if k = ''startTime'' then e\<lparr>startTime := v\<rparr>
      else if k = ''name'' then e\<lparr>name := v\<rparr>
      else if k = ''address'' then e\<lparr>address := v\<rparr>
      else e)"

definition getCenterProp :: "string \<Rightarrow> Center \<Rightarrow> string option" where
  "getCenterProp k c =
     (if k = ''program'' then program c
      else if k = ''about'' then about c
      else if k = ''name'' then cname c
      else if k = ''address'' then caddress c
      else None)"

definition setCenterProp :: "string \<Rightarrow> string option \<Rightarrow> Center \<Rightarrow> Center" where
  "setCenterProp k v c =
     (if k = ''program'' then c\<lparr>program := v\<rparr>
      else if k = ''about'' then c\<lparr>about := v\<rparr>
      else if k = ''name'' then c\<lparr>cname := v\<rparr>
      else if k = ''address'' then c\<lparr>caddress := v\<rparr>
      else c)"

text \<open>
  \<open>applyCenterChanges\<close> (lines 192-212). The function mutates \<open>curr\<close> (written \<open>cur\<close> below) and returns
  a message; the model returns the message and the record as the call leaves it. The loop
  checks and assigns key by key, and \<open>return k + " too long"\<close> leaves it early.
\<close>

definition center_keys :: "string list" where
  "center_keys = [''*program'', ''*about'', ''name'', ''address'']"

fun applyCenterLoop :: "string list \<Rightarrow> Center \<Rightarrow> Center \<Rightarrow> string \<times> Center" where
  "applyCenterLoop [] cur delta = ([], cur)"
| "applyCenterLoop (k0 # ks) cur delta =
     (let (limit, k) = (case k0 of c # rest \<Rightarrow> if c = CHR ''*'' then (4000::nat, rest) else (200, k0)
                                 | [] \<Rightarrow> (200, k0))
      in case getCenterProp k delta of
           Some v \<Rightarrow>
             if length v > limit then (k @ '' too long'', cur)
             else applyCenterLoop ks (setCenterProp k (Some v) cur) delta
         | None \<Rightarrow> applyCenterLoop ks cur delta)"

definition applyCenterChanges :: "Center \<Rightarrow> Center \<Rightarrow> string \<times> Center" where
  "applyCenterChanges cur delta = applyCenterLoop center_keys cur delta"

text \<open>
  \<open>applyChanges\<close> (lines 214-246): eight checks, each returning its message, then the
  copying loop over the whitelisted keys.
\<close>

definition event_keys :: "string list" where
  "event_keys = [''center'', ''startDate'', ''endDate'', ''title'', ''description'',
     ''startTime'', ''name'', ''address'']"

definition copyProp :: "FullEvent \<Rightarrow> string \<Rightarrow> FullEvent \<Rightarrow> FullEvent" where
  "copyProp delta k cur =
     (case getProp k delta of Some v \<Rightarrow> setProp k (Some v) cur | None \<Rightarrow> cur)"

definition applyChanges :: "FullEvent \<Rightarrow> FullEvent \<Rightarrow> string \<times> FullEvent" where
  "applyChanges cur delta =
     (if truthy (center cur) \<and> center delta \<noteq> center cur then (''cannot change event center'', cur)
      else if \<not> validDate (startDate delta) then (''invalid start date'', cur)
      else if \<not> validDate (endDate delta) then (''invalid end date'', cur)
      else if \<not> validTime (startTime delta) then (''invalid start time'', cur)
      else if length (or_empty (title delta)) > 200 then (''title too long'', cur)
      else if length (or_empty (address delta)) > 200 then (''address too long'', cur)
      else if length (or_empty (name delta)) > 200 then (''name too long'', cur)
      else if length (or_empty (description delta)) > 4000 then (''description too long'', cur)
      else ([], fold (copyProp delta) event_keys cur))"

section \<open>Process state and collaborators (lines 55-62, 78-79)\<close>

text \<open>
  The module keeps its state in the variables \<open>index\<close>, \<open>eventsCache\<close>, \<open>hasAllCenters\<close> and
  \<open>_centers\<close>; the model passes them along in a record, together with the files the code
  reads and writes: the documents \<open>current/<name>\<close> and \<open>centers/<id>.json\<close> of the
  external store (\<open>gitfs.events\<close>) and the snapshot \<open>index.json\<close>. \<open>_centers\<close> (the
  field \<open>centersVar\<close>) starts out \<open>undefined\<close> (\<open>None\<close>). The text of a file either parses
  to a document of the declared shape or makes \<open>JSON.parse\<close> throw; \<open>JSON.stringify\<close>
  followed by \<open>JSON.parse\<close> gives the value back. Reading a file that is not there rejects the promise; writes succeed.
  Requests are run one after the other: a handler is not interleaved with another at
  its \<open>await\<close>s.
\<close>

datatype error = NotFound | SyntaxError | TypeError | GeocodingError

datatype 'a doc = Malformed | Doc 'a

record state =
  index :: EventIndex
  eventsCache :: "string \<rightharpoonup> FullEvent doc"
  hasAllCenters :: bool
  centersVar :: "(string \<rightharpoonup> Center) option"
  indexFile :: "EventIndex option"
  repoEvents :: "string \<rightharpoonup> FullEvent doc"
  repoCenters :: "string \<rightharpoonup> Center doc"

text \<open>
  The collaborators that are not part of this file are parameters: the authorization
  check, the geocoder (the \<open>fullcity\<close> of its answer, or a rejection), the date
  formatting helpers and the string comparison of \<open>tools\<close>, and the default start date of
  a query, \<open>formatDate(new Date(Date.now() - 3 * 24 * 3600 * 1000))\<close>.
\<close>

record env =
  hasWritePerm :: "string \<Rightarrow> string list \<Rightarrow> bool"
  parseAddress :: "string option \<Rightarrow> error + string option"
  weekDay :: "string option \<Rightarrow> string"
  monthPlusDay :: "string option \<Rightarrow> string"
  monthDay :: "string option \<Rightarrow> string"
  monthName :: "string option \<Rightarrow> string"
  fullDate :: "string option \<Rightarrow> string"
  strcmp :: "string option \<Rightarrow> string option \<Rightarrow> int"
  startDefault :: string

subsection \<open>Numbers and strings of JavaScript\<close>

text \<open>\<open>n + ""\<close> for a natural number: its decimal digits.\<close>

fun dec :: "nat \<Rightarrow> string" where
  "dec n = (if n < 10 then [''0123456789'' ! n] else dec (n div 10) @ [''0123456789'' ! (n mod 10)])"

declare dec.simps [simp del]

text \<open>\<open>id + ""\<close> for a property that holds an integer or is absent.\<close>

fun num_str :: "int option \<Rightarrow> string" where
  "num_str None = ''undefined''"
| "num_str (Some i) = (if i < 0 then CHR ''-'' # dec (nat (- i)) else dec (nat i))"

text \<open>A property name computed from a string-valued property: \<open>centers[e.center]\<close>.\<close>

fun prop_key :: "string option \<Rightarrow> string" where
  "prop_key None = ''undefined''"
| "prop_key (Some k) = k"

text \<open>\<open>eventFn\<close> (lines 74-76): \<open>("000000" + id).slice(-6) + ".json"\<close>.\<close>

definition eventFn :: "int option \<Rightarrow> string" where
  "eventFn i = (let s = ''000000'' @ num_str i in drop (length s - 6) s @ ''.json'')"

text \<open>
  The relational operators on two operands that are strings or \<open>undefined\<close>: two strings
  compare by code units; \<open>undefined\<close> converts to \<open>NaN\<close> and every comparison with it is false.
\<close>

fun js_lt :: "string option \<Rightarrow> string option \<Rightarrow> bool" where
  "js_lt (Some a) (Some b) = (a < b)"
| "js_lt _ _ = False"

definition js_gt :: "string option \<Rightarrow> string option \<Rightarrow> bool" where
  "js_gt a b = js_lt b a"

text \<open>
  \<open>parseInt(x)\<close> without a radix, for a string or \<open>undefined\<close>: leading white space is
  skipped, then a sign, then \<open>0x\<close> or \<open>0X\<close> switches to radix 16, then the longest run of
  digits is read. \<open>None\<close> is \<open>NaN\<close>. Numbers are exact integers here; the callers only test
  the result against 0 and 100 and use it as a slice bound, where a large double and the
  exact integer behave alike.
\<close>

definition is_ws :: "char \<Rightarrow> bool" where
  "is_ws c = (c \<in> set [CHR 0x09, CHR 0x0A, CHR 0x0B, CHR 0x0C, CHR 0x0D, CHR 0x20, CHR 0xA0])"

definition digit_val :: "char \<Rightarrow> nat option" where
  "digit_val c =
     (let n = (of_char c :: nat) in
      if 48 \<le> n \<and> n \<le> 57 then Some (n - 48)
      else if 97 \<le> n \<and> n \<le> 122 then Some (n - 87)
      else if 65 \<le> n \<and> n \<le> 90 then Some (n - 55)
      else None)"

definition is_radix_digit :: "nat \<Rightarrow> char \<Rightarrow> bool" where
  "is_radix_digit r c = (case digit_val c of Some d \<Rightarrow> d < r | None \<Rightarrow> False)"

definition radix_value :: "nat \<Rightarrow> string \<Rightarrow> nat" where
  "radix_value r z = foldl (\<lambda>acc c. acc * r + (case digit_val c of Some d \<Rightarrow> d | None \<Rightarrow> 0)) 0 z"

definition parseInt :: "string option \<Rightarrow> int option" where
  "parseInt x =
     (let s = dropWhile is_ws (prop_key x);
          (sign, s1) = (case s of c # rest \<Rightarrow> if c = CHR ''-'' then (- 1 :: int, rest)
                                             else if c = CHR ''+'' then (1, rest) else (1, s)
                                | [] \<Rightarrow> (1, s));
          (r, s2) = (case s1 of a # b # rest \<Rightarrow>
                         if a = CHR ''0'' \<and> (b = CHR ''x'' \<or> b = CHR ''X'') then (16 :: nat, rest) else (10, s1)
                     | _ \<Rightarrow> (10, s1));
          z = takeWhile (is_radix_digit r) s2
      in if z = [] then None else Some (sign * int (radix_value r z)))"

text \<open>\<open>xs.slice(k)\<close> and \<open>xs.slice(0, n)\<close> for integers \<open>k\<close> and \<open>n \<ge> 0\<close>.\<close>

definition slice_from :: "int \<Rightarrow> 'a list \<Rightarrow> 'a list" where
  "slice_from k xs = (if k < 0 then drop (length xs - nat (- k)) xs else drop (nat k) xs)"

definition slice_to :: "int \<Rightarrow> 'a list \<Rightarrow> 'a list" where
  "slice_to n xs = take (nat n) xs"

text \<open>
  \<open>Array.prototype.sort\<close> with a comparison function: a stable sort, written as an
  insertion sort. The comparison function comes from a parameter (\<open>tools.strcmp\<close>), so
  nothing is assumed about it.
\<close>

fun insort_cmp :: "('a \<Rightarrow> 'a \<Rightarrow> int) \<Rightarrow> 'a \<Rightarrow> 'a list \<Rightarrow> 'a list" where
  "insort_cmp c x [] = [x]"
| "insort_cmp c x (y # ys) = (if c x y \<le> 0 then x # y # ys else y # insort_cmp c x ys)"

definition sort_cmp :: "('a \<Rightarrow> 'a \<Rightarrow> int) \<Rightarrow> 'a list \<Rightarrow> 'a list" where
  "sort_cmp c xs = foldr (insort_cmp c) xs []"

text \<open>\<open>xs.findIndex(p)\<close>, with \<open>None\<close> for \<open>-1\<close>.\<close>

fun findIndex :: "('a \<Rightarrow> bool) \<Rightarrow> 'a list \<Rightarrow> nat option" where
  "findIndex p [] = None"
| "findIndex p (x # xs) = (if p x then Some 0 else map_option Suc (findIndex p xs))"

section \<open>Center directory (lines 81-121, 257-266)\<close>

text \<open>
  \<open>cachedCenters\<close> (lines 81-94), with \<open>gitfs.events\<close> present (\<open>initRoutes\<close> mounts nothing
  otherwise). The first call subscribes \<open>onUpdate_cb\<close> to the store's notifications and
  sets \<open>_centers = {}\<close>; the handler is subscribed exactly when \<open>_centers\<close> is set.
\<close>

definition cachedCenters :: "state \<Rightarrow> (string \<rightharpoonup> Center) \<times> state" where
  "cachedCenters s =
     (case centersVar s of
        None \<Rightarrow> (Map.empty, s\<lparr>centersVar := Some Map.empty\<rparr>)
      | Some m \<Rightarrow> (m, s))"

text \<open>The handler \<open>isPull => { if (isPull) { _centers = {}; hasAllCenters = false } }\<close>.\<close>

definition onUpdate_cb :: "bool \<Rightarrow> state \<Rightarrow> state" where
  "onUpdate_cb isPull s =
     (if isPull then s\<lparr>centersVar := Some Map.empty, hasAllCenters := False\<rparr> else s)"

text \<open>A notification of the store reaches the handler once it is subscribed.\<close>

definition notifyUpdate :: "bool \<Rightarrow> state \<Rightarrow> state" where
  "notifyUpdate isPull s = (case centersVar s of None \<Rightarrow> s | Some m \<Rightarrow> onUpdate_cb isPull s)"

text \<open>\<open>parseCenterAsync\<close> (lines 96-102).\<close>

definition parseCenterAsync :: "env \<Rightarrow> Center doc \<Rightarrow> error + Center" where
  "parseCenterAsync en str =
     (case str of
        Malformed \<Rightarrow> Inl SyntaxError
      | Doc c \<Rightarrow>
          if \<not> truthy (cfullcity c) then
            (case parseAddress en (caddress c) of
               Inl e \<Rightarrow> Inl e
             | Inr fc \<Rightarrow> Inr (c\<lparr>cfullcity := fc\<rparr>))
          else Inr c)"

text \<open>
  Modelled from the spec: \<open>tools.lookup\<close>, which is not in this file ("if cached, return
  the cached record"): the entry of the directory under the key, if there is one.
\<close>

definition lookup :: "(string \<rightharpoonup> Center) \<Rightarrow> string \<Rightarrow> Center option" where
  "lookup m k = m k"

text \<open>\<open>getCenterAsync\<close> (lines 257-266); \<open>null\<close> is \<open>None\<close>.\<close>

definition getCenterAsync :: "env \<Rightarrow> string option \<Rightarrow> state \<Rightarrow> (error + Center option) \<times> state" where
  "getCenterAsync en i s =
     (case i of
        None \<Rightarrow> (Inr None, s)
      | Some k \<Rightarrow>
          (let (centers, s1) = cachedCenters s;
               r = lookup centers k
           in if r \<noteq> None \<or> hasAllCenters s1 then (Inr r, s1)
              else (case repoCenters s1 k of
                      None \<Rightarrow> (Inl NotFound, s1)
                    | Some str \<Rightarrow>
                        (case parseCenterAsync en str of
                           Inl e \<Rightarrow> (Inl e, s1)
                         | Inr c \<Rightarrow> (Inr (Some c), s1\<lparr>centersVar := Some (centers(k \<mapsto> c))\<rparr>)))))"

text \<open>
  \<open>getCentersAsync\<close> (lines 104-121). \<open>files\<close> is what \<open>readdirAsync\<close> lists in the directory
  \<open>centers\<close>; the file \<open>centers/<k>.json\<close> read there is the document of the store under
  the same path. \<open>/^(\w+)\.json$/\<close> gives the key; \<open>hasAllCenters\<close> is set before the loop.
\<close>

definition is_word :: "char \<Rightarrow> bool" where
  "is_word c = ((CHR ''a'' \<le> c \<and> c \<le> CHR ''z'') \<or> (CHR ''A'' \<le> c \<and> c \<le> CHR ''Z'')
     \<or> is_digit c \<or> c = CHR ''_'')"

definition center_file_key :: "string \<Rightarrow> string option" where
  "center_file_key f =
     (if takeWhile is_word f \<noteq> [] \<and> dropWhile is_word f = ''.json'' then Some (takeWhile is_word f)
      else None)"

fun loadCenterFiles :: "env \<Rightarrow> string list \<Rightarrow> (string \<rightharpoonup> Center) \<Rightarrow> state \<Rightarrow> (error + (string \<rightharpoonup> Center)) \<times> state" where
  "loadCenterFiles en [] centers s = (Inr centers, s)"
| "loadCenterFiles en (f # fs) centers s =
     (case center_file_key f of
        None \<Rightarrow> loadCenterFiles en fs centers s
      | Some k \<Rightarrow>
          if centers k \<noteq> None then loadCenterFiles en fs centers s
          else (case repoCenters s k of
                  None \<Rightarrow> (Inl NotFound, s)
                | Some str \<Rightarrow>
                    (case parseCenterAsync en str of
                       Inl e \<Rightarrow> (Inl e, s)
                     | Inr c \<Rightarrow>
                         loadCenterFiles en fs (centers(k \<mapsto> c))
                           (s\<lparr>centersVar := Some (centers(k \<mapsto> c))\<rparr>))))"

definition getCentersAsync :: "env \<Rightarrow> string list \<Rightarrow> state \<Rightarrow> (error + (string \<rightharpoonup> Center)) \<times> state" where
  "getCentersAsync en files s =
     (let (centers, s1) = cachedCenters s
      in if \<not> hasAllCenters s1 then loadCenterFiles en files centers (s1\<lparr>hasAllCenters := True\<rparr>)
         else (Inr centers, s1))"

section \<open>Augmenter (lines 268-289)\<close>

definition augmentEvent :: "env \<Rightarrow> EventIndexEntry \<Rightarrow> state \<Rightarrow> EventListEntry \<times> state" where
  "augmentEvent en ev s =
     (let (centers, s1) = cachedCenters s;
          r1 = (case centers (prop_key (center ev)) of
                  Some c \<Rightarrow> ev\<lparr>fullcity := cfullcity c\<rparr>
                | None \<Rightarrow> ev);
          w = weekDay en (startDate ev);
          d = monthPlusDay en (startDate ev);
          f = fullDate en (startDate ev)
      in if truthy (endDate r1) then
           (r1\<lparr>weekdayRange := Some (w @ ''-'' @ weekDay en (endDate ev)),
               dateRange := Some (if monthName en (startDate ev) \<noteq> monthName en (endDate ev)
                                  then d @ ''-'' @ monthPlusDay en (endDate ev)
                                  else d @ ''-'' @ monthDay en (endDate ev)),
               combinedRange := Some (f @ fullDate en (endDate ev))\<rparr>, s1)
         else (r1\<lparr>weekdayRange := Some w, dateRange := Some d, combinedRange := Some f\<rparr>, s1))"

text \<open>\<open>events.map(augmentEvent)\<close>, the state passed from call to call.\<close>

fun augmentAll :: "env \<Rightarrow> EventIndexEntry list \<Rightarrow> state \<Rightarrow> EventListEntry list \<times> state" where
  "augmentAll en [] s = ([], s)"
| "augmentAll en (e # es) s =
     (let (r, s1) = augmentEvent en e s;
          (rs, s2) = augmentAll en es s1
      in (r # rs, s2))"

section \<open>Index manager and event cache (lines 64-72, 124-178)\<close>

definition forIndex :: "FullEvent \<Rightarrow> EventIndexEntry" where
  "forIndex js = emptyEvent\<lparr>eid := eid js, startDate := startDate js, endDate := endDate js,
     title := title js, center := center js\<rparr>"

text \<open>
  \<open>saveEventAsync\<close> (lines 124-133): the cache entry, the index entry (replaced where
  \<open>findIndex\<close> finds the id, appended otherwise: \<open>splice(idx, 1, x)\<close>), the snapshot and
  the document of the store. The user only signs the commit.
\<close>

definition saveEventAsync :: "FullEvent \<Rightarrow> string \<Rightarrow> state \<Rightarrow> state" where
  "saveEventAsync e user s =
     (let evs = events (index s);
          evs' = (case findIndex (\<lambda>x. eid x = eid e) evs of
                    Some idx \<Rightarrow> evs[idx := forIndex e]
                  | None \<Rightarrow> evs @ [forIndex e]);
          index' = (index s)\<lparr>events := evs'\<rparr>
      in s\<lparr>eventsCache := (eventsCache s)(num_str (eid e) \<mapsto> Doc e),
            index := index',
            indexFile := Some index',
            repoEvents := (repoEvents s)(eventFn (eid e) \<mapsto> Doc e)\<rparr>)"

text \<open>
  Lines 138-142 of \<open>readEventAsync\<close>: the text of the document, from the cache or, on a
  miss, from the store and then cached.
\<close>

definition cachedEventText :: "int \<Rightarrow> state \<Rightarrow> (error + FullEvent doc) \<times> state" where
  "cachedEventText i s =
     (case eventsCache s (num_str (Some i)) of
        Some t \<Rightarrow> (Inr t, s)
      | None \<Rightarrow>
          (case repoEvents s (eventFn (Some i)) of
             None \<Rightarrow> (Inl NotFound, s)
           | Some t \<Rightarrow> (Inr t, s\<lparr>eventsCache := (eventsCache s)(num_str (Some i) \<mapsto> t)\<rparr>)))"

text \<open>
  Lines 144-150 of \<open>readEventAsync\<close>, for the parsed document \<open>r\<close>. \<open>c.address\<close> with \<open>c\<close>
  being \<open>null\<close> throws a \<open>TypeError\<close>.
\<close>

definition resolveEvent :: "env \<Rightarrow> FullEvent \<Rightarrow> state \<Rightarrow> (error + FullEvent option) \<times> state" where
  "resolveEvent en r s =
     (case getCenterAsync en (center r) s of
        (Inl e, s1) \<Rightarrow> (Inl e, s1)
      | (Inr c, s1) \<Rightarrow>
          if \<not> truthy (address r) then
            (case c of
               None \<Rightarrow> (Inl TypeError, s1)
             | Some cen \<Rightarrow>
                 (let (r', s2) = augmentEvent en (r\<lparr>address := caddress cen, name := cname cen\<rparr>) s1
                  in (Inr (Some r'), s2)))
          else (let (r', s2) = augmentEvent en r s1 in (Inr (Some r'), s2)))"

text \<open>\<open>readEventAsync\<close> (lines 135-151); \<open>null\<close> is \<open>None\<close>.\<close>

definition readEventAsync :: "env \<Rightarrow> int \<Rightarrow> state \<Rightarrow> (error + FullEvent option) \<times> state" where
  "readEventAsync en i s =
     (if \<not> (\<exists>e \<in> set (events (index s)). eid e = Some i) then (Inr None, s)
      else
        (case cachedEventText i s of
           (Inl e, s1) \<Rightarrow> (Inl e, s1)
         | (Inr Malformed, s1) \<Rightarrow> (Inl SyntaxError, s1)
         | (Inr (Doc r), s1) \<Rightarrow> resolveEvent en r s1))"

text \<open>
  \<open>loadOrCreateIndex\<close> (lines 153-178), as a function of what it finds on disk: the
  snapshot \<open>index.json\<close> if it exists, and the directory \<open>currEventsPath\<close> as
  \<open>readdirSync\<close> lists it, each name with the text of its file. The files named
  \<open>/^\d+\.json$/\<close> are read. The result is the new value of \<open>index\<close>, which the second
  branch also writes to \<open>index.json\<close>.
\<close>

definition is_event_file :: "string \<Rightarrow> bool" where
  "is_event_file fn = (takeWhile is_digit fn \<noteq> [] \<and> dropWhile is_digit fn = ''.json'')"

fun scanEvents :: "(string \<times> FullEvent doc) list \<Rightarrow> EventIndex \<Rightarrow> error + EventIndex" where
  "scanEvents [] idx = Inr idx"
| "scanEvents ((fn, t) # rest) idx =
     (if is_event_file fn then
        (case t of
           Malformed \<Rightarrow> Inl SyntaxError
         | Doc js \<Rightarrow>
             scanEvents rest
               \<lparr>events = events idx @ [forIndex js],
                nextId = max (nextId idx) (case eid js of Some n \<Rightarrow> n | None \<Rightarrow> 0)\<rparr>)
      else scanEvents rest idx)"

definition loadOrCreateIndex :: "EventIndex doc option \<Rightarrow> (string \<times> FullEvent doc) list \<Rightarrow> error + EventIndex" where
  "loadOrCreateIndex snapshot dir =
     (case snapshot of
        Some Malformed \<Rightarrow> Inl SyntaxError
      | Some (Doc idx) \<Rightarrow> Inr idx
      | None \<Rightarrow>
          (case scanEvents dir \<lparr>events = [], nextId = 0\<rparr> of
             Inl e \<Rightarrow> Inl e
           | Inr idx \<Rightarrow> Inr (idx\<lparr>nextId := nextId idx + 1\<rparr>)))"

section \<open>Query engine (lines 291-336)\<close>

record query_result =
  totalCount :: nat
  res_events :: "EventListEntry list"

text \<open>\<open>query[k] || d\<close>.\<close>

definition param_or :: "(string \<rightharpoonup> string) \<Rightarrow> string \<Rightarrow> string \<Rightarrow> string" where
  "param_or query k d = (if truthy (query k) then or_empty (query k) else d)"

text \<open>The predicate of the first \<open>filter\<close> (lines 297-306).\<close>

definition inWindow :: "string \<Rightarrow> string \<Rightarrow> string \<Rightarrow> EventIndexEntry \<Rightarrow> bool" where
  "inWindow startD stopD cen e =
     (let end = (if truthy (endDate e) then endDate e else startDate e)
      in if js_lt end (Some startD) then False
         else if js_gt (startDate e) (Some stopD) then False
         else if cen \<noteq> ''*'' \<and> center e \<noteq> Some cen then False
         else True)"

text \<open>The loop \<open>for (let e of events) await getCenterAsync(e.center)\<close> (lines 309-311).\<close>

fun fetchCenters :: "env \<Rightarrow> EventIndexEntry list \<Rightarrow> state \<Rightarrow> (error + unit) \<times> state" where
  "fetchCenters en [] s = (Inr (), s)"
| "fetchCenters en (e # es) s =
     (case getCenterAsync en (center e) s of
        (Inl er, s1) \<Rightarrow> (Inl er, s1)
      | (Inr c, s1) \<Rightarrow> fetchCenters en es s1)"

text \<open>The predicate of the second \<open>filter\<close> (lines 315-320).\<close>

definition countryOk :: "(string \<rightharpoonup> Center) \<Rightarrow> string \<Rightarrow> EventIndexEntry \<Rightarrow> bool" where
  "countryOk centers ctry e =
     (case centers (prop_key (center e)) of
        None \<Rightarrow> False
      | Some c \<Rightarrow> if country c \<noteq> Some ctry then False else True)"

text \<open>The comparison function of the sort (lines 323-324); \<open>NaN\<close> counts as 0.\<close>

definition eventCmp :: "env \<Rightarrow> EventIndexEntry \<Rightarrow> EventIndexEntry \<Rightarrow> int" where
  "eventCmp en a b =
     (let c = strcmp en (startDate a) (startDate b)
      in if c \<noteq> 0 then c
         else (case (eid a, eid b) of (Some x, Some y) \<Rightarrow> x - y | _ \<Rightarrow> 0))"

text \<open>
  \<open>queryEventsAsync\<close> in two parts: \<open>selectEvents\<close> is lines 292-324 (both filters and the
  sort) and gives the value of \<open>events\<close> at line 325; \<open>queryEventsAsync\<close> goes on with lines
  325-335 (\<open>totalCount\<close>, \<open>skip\<close>, \<open>count\<close> and the augmentation).
\<close>

definition selectEvents :: "env \<Rightarrow> (string \<rightharpoonup> string) \<Rightarrow> state \<Rightarrow> (error + EventIndexEntry list) \<times> state" where
  "selectEvents en query s =
     (let startD = param_or query ''start'' (startDefault en);
          stopD = param_or query ''stop'' ''9999-99-99'';
          cen = param_or query ''center'' ''*'';
          ctry = param_or query ''country'' ''*'';
          evs = filter (inWindow startD stopD cen) (events (index s))
      in case fetchCenters en evs s of
           (Inl er, s1) \<Rightarrow> (Inl er, s1)
         | (Inr u, s1) \<Rightarrow>
             if ctry \<noteq> ''*'' then
               (let (centers, s2) = cachedCenters s1
                in (Inr (sort_cmp (eventCmp en) (filter (countryOk centers ctry) evs)), s2))
             else (Inr (sort_cmp (eventCmp en) evs), s1))"

definition queryEventsAsync :: "env \<Rightarrow> (string \<rightharpoonup> string) \<Rightarrow> state \<Rightarrow> (error + query_result) \<times> state" where
  "queryEventsAsync en query s =
     (case selectEvents en query s of
        (Inl er, s1) \<Rightarrow> (Inl er, s1)
      | (Inr evs, s1) \<Rightarrow>
          (let total = length evs;
               skip = (case parseInt (query ''skip'') of Some n \<Rightarrow> n | None \<Rightarrow> 0);
               evs1 = (if skip \<noteq> 0 then slice_from skip evs else evs);
               count0 = \<bar>case parseInt (query ''count'') of
                           Some n \<Rightarrow> if n \<noteq> 0 then n else 100
                         | None \<Rightarrow> 100\<bar>;
               count = (if count0 > 100 then 100 else count0);
               evs2 = (if int (length evs1) > count then slice_to count evs1 else evs1);
               (rs, s2) = augmentAll en evs2 s1
           in (Inr \<lparr>totalCount = total, res_events = rs\<rparr>, s2)))"

section \<open>Mutation pipeline: \<open>POST /api/events\<close> (lines 495-536)\<close>

record request =
  appuser :: "string option"
  body :: FullEvent

text \<open>
  What the handler answers: \<open>res.status(n).end()\<close>, \<open>res.status(n).json({ error: err })\<close>
  or \<open>res.json(currElt)\<close>.
\<close>

datatype response = End nat | JsonError nat string | Json FullEvent

text \<open>
  Lines 521-535: validation and merge, then, if there is no error, the counter, the
  three collapsed properties and the save.
\<close>

definition applyAndSave :: "request \<Rightarrow> Center \<Rightarrow> FullEvent \<Rightarrow> bool \<Rightarrow> state \<Rightarrow> (error + response) \<times> state" where
  "applyAndSave req cen currElt isFresh s =
     (case applyChanges currElt (body req) of
        (err, c1) \<Rightarrow>
          if err \<noteq> [] then (Inr (JsonError 412 err), s)
          else
            (let s1 = (if isFresh then s\<lparr>index := (index s)\<lparr>nextId := nextId (index s) + 1\<rparr>\<rparr> else s);
                 c2 = (if address c1 = caddress cen then c1\<lparr>address := None\<rparr> else c1);
                 c3 = (if name c2 = cname cen then c2\<lparr>name := None\<rparr> else c2);
                 c4 = (if endDate c3 = startDate c3 then c3\<lparr>endDate := None\<rparr> else c3)
             in (Inr (Json c4), saveEventAsync c4 (or_empty (appuser req)) s1)))"

text \<open>
  Lines 496-519. \<open>typeof delta.id == "number"\<close> is \<open>eid delta \<noteq> None\<close>; \<open>delete delta.id\<close>
  changes nothing further on, since \<open>applyChanges\<close> does not read the \<open>id\<close> of the delta.
\<close>

definition post_api_events :: "env \<Rightarrow> request \<Rightarrow> state \<Rightarrow> (error + response) \<times> state" where
  "post_api_events en req s =
     (if \<not> truthy (appuser req) then (Inr (End 403), s)
      else
        (let delta = body req
         in case getCenterAsync en (center delta) s of
              (Inl e, s1) \<Rightarrow> (Inl e, s1)
            | (Inr None, s1) \<Rightarrow> (Inr (End 404), s1)
            | (Inr (Some cen), s1) \<Rightarrow>
                if \<not> hasWritePerm en (or_empty (appuser req)) (users cen) then (Inr (End 402), s1)
                else
                  (let fresh = emptyEvent\<lparr>eid := Some (nextId (index s1))\<rparr>
                   in case eid delta of
                        None \<Rightarrow> applyAndSave req cen fresh True s1
                      | Some i \<Rightarrow>
                          if i \<le> 0 then applyAndSave req cen fresh True s1
                          else
                            (case readEventAsync en i s1 of
                               (Inl e, s2) \<Rightarrow> (Inl e, s2)
                             | (Inr None, s2) \<Rightarrow> (Inr (End 444), s2)
                             | (Inr (Some currElt), s2) \<Rightarrow> applyAndSave req cen currElt False s2))))"

text \<open>
  A sequence of requests, one handled after the other; a rejected handler leaves the
  state as it was when it threw.
\<close>

fun run :: "env \<Rightarrow> request list \<Rightarrow> state \<Rightarrow> (error + response) list \<times> state" where
  "run en [] s = ([], s)"
| "run en (req # reqs) s =
     (let (r, s1) = post_api_events en req s;
          (rs, s2) = run en reqs s1
      in (r # rs, s2))"

section \<open>Sample data\<close>

definition center0 :: Center where
  "center0 = \<lparr>cid = ''x'', country = Some ''US'', users = [''ann''], program = None, about = None,
     cname = Some ''X Center'', caddress = Some ''1 Main St'', cfullcity = Some ''Springfield''\<rparr>"

definition centerDelta0 :: Center where
  "centerDelta0 = center0\<lparr>program := Some ''p'', about := Some (replicate 4001 CHR ''a'')\<rparr>"

definition event0 :: FullEvent where
  "event0 = emptyEvent\<lparr>eid := Some 1, startDate := Some ''2024-05-01'', title := Some ''T'',
     center := Some ''x''\<rparr>"

text \<open>
  A store with the one center \<open>x\<close>, an empty index whose counter stands at 1, and
  collaborators that let a user write where the center lists them.
\<close>

definition env0 :: env where
  "env0 = \<lparr>hasWritePerm = (\<lambda>u us. u \<in> set us),
     parseAddress = (\<lambda>a. Inr (Some ''Springfield'')),
     weekDay = (\<lambda>d. ''Wed''), monthPlusDay = (\<lambda>d. ''May 1''), monthDay = (\<lambda>d. ''1''),
     monthName = (\<lambda>d. ''May''), fullDate = (\<lambda>d. ''Wed, May 1''),
     strcmp = (\<lambda>a b. if a = b then 0 else if js_lt a b then - 1 else 1),
     startDefault = ''2024-01-01''\<rparr>"

definition state0 :: state where
  "state0 = \<lparr>index = \<lparr>events = [], nextId = 1\<rparr>, eventsCache = Map.empty, hasAllCenters = False,
     centersVar = None, indexFile = None, repoEvents = Map.empty,
     repoCenters = [''x'' \<mapsto> Doc center0]\<rparr>"

definition reqNew :: request where
  "reqNew = \<lparr>appuser = Some ''ann'',
     body = emptyEvent\<lparr>center := Some ''x'', startDate := Some ''2024-05-01'', title := Some ''T''\<rparr>\<rparr>"

definition reqBad :: request where
  "reqBad = \<lparr>appuser = Some ''ann'',
     body = emptyEvent\<lparr>center := Some ''x'', startDate := Some ''May 1st''\<rparr>\<rparr>"

definition center1 :: Center where
  "center1 = \<lparr>cid = ''w'', country = Some ''PL'', users = [''ola''], program = None, about = None,
     cname = Some ''W Center'', caddress = Some ''Rynek 1'', cfullcity = Some ''Wroclaw''\<rparr>"

definition eventW :: FullEvent where
  "eventW = emptyEvent\<lparr>eid := Some 2, startDate := Some ''2024-05-02'', title := Some ''W'',
     center := Some ''w''\<rparr>"

definition eventG :: FullEvent where
  "eventG = emptyEvent\<lparr>eid := Some 3, startDate := Some ''2024-05-03'', title := Some ''G'',
     center := Some ''gone''\<rparr>"

text \<open>
  A state in which \<open>getCentersAsync\<close> has listed the two centers of the store
  (\<open>hasAllCenters\<close>), with three events in the index; the center of the third is in
  neither the directory nor the store.
\<close>

definition state1 :: state where
  "state1 = \<lparr>index = \<lparr>events = [event0, eventW, eventG], nextId = 4\<rparr>,
     eventsCache = Map.empty, hasAllCenters = True,
     centersVar = Some [''x'' \<mapsto> center0, ''w'' \<mapsto> center1], indexFile = None,
     repoEvents = Map.empty, repoCenters = [''x'' \<mapsto> Doc center0, ''w'' \<mapsto> Doc center1]\<rparr>"

definition query1 :: "string \<rightharpoonup> string" where
  "query1 = [''start'' \<mapsto> ''2024-01-01'', ''count'' \<mapsto> ''1'']"

text \<open>Two requests that set one of \<open>name\<close> and \<open>address\<close> to the center's value.\<close>

definition reqAddr :: request where
  "reqAddr = \<lparr>appuser = Some ''ann'',
     body = emptyEvent\<lparr>center := Some ''x'', startDate := Some ''2024-05-01'', title := Some ''T'',
       name := Some ''X Center'', address := Some ''2 Side St''\<rparr>\<rparr>"

definition reqName :: request where
  "reqName = \<lparr>appuser = Some ''ann'',
     body = emptyEvent\<lparr>center := Some ''x'', startDate := Some ''2024-05-01'', title := Some ''T'',
       name := Some ''Guest House'', address := Some ''1 Main St''\<rparr>\<rparr>"

definition dir0 :: "(string \<times> FullEvent doc) list" where
  "dir0 = [(''000003.json'', Doc (event0\<lparr>eid := Some 3, address := Some ''2 Side St''\<rparr>)),
           (''notes.txt'', Malformed),
           (''000001.json'', Doc event0)]"

section \<open>Notions the properties are stated with\<close>

text \<open>
  The requests for which the handler keeps \<open>isFresh = true\<close>: no numeric \<open>id\<close> in the body,
  or one that is \<open>\<le> 0\<close>.
\<close>

definition creates :: "request \<Rightarrow> bool" where
  "creates req = (case eid (body req) of None \<Rightarrow> True | Some i \<Rightarrow> i \<le> 0)"

text \<open>The id a request was given: that of the answered event, if the request created it.\<close>

fun created_id :: "request \<Rightarrow> error + response \<Rightarrow> int option list" where
  "created_id req (Inr (Json ev)) = (if creates req then [eid ev] else [])"
| "created_id req r = []"

text \<open>The ids given out along a sequence of requests, in order.\<close>

fun assignedIds :: "env \<Rightarrow> request list \<Rightarrow> state \<Rightarrow> int option list" where
  "assignedIds en [] s = []"
| "assignedIds en (req # reqs) s =
     (let (r, s1) = post_api_events en req s in created_id req r @ assignedIds en reqs s1)"

text \<open>
  A file name of the form \<open><digits>.json\<close>: longer than \<open>.json\<close>, ending in it, and with
  nothing but the characters \<open>0\<close> to \<open>9\<close> before it.
\<close>

definition digits_json :: "string \<Rightarrow> bool" where
  "digits_json fn = (5 < length fn \<and> drop (length fn - 5) fn = ''.json''
     \<and> set (take (length fn - 5) fn) \<subseteq> set ''0123456789'')"

text \<open>
  The stored event documents of a directory, in the order of the listing: the texts of
  the files named \<open><digits>.json\<close>, and the documents they parse to.
\<close>

fun storedDocs :: "(string \<times> FullEvent doc) list \<Rightarrow> FullEvent doc list" where
  "storedDocs [] = []"
| "storedDocs ((fn, t) # rest) = (if digits_json fn then t # storedDocs rest else storedDocs rest)"

fun parsedDocs :: "FullEvent doc list \<Rightarrow> FullEvent list" where
  "parsedDocs [] = []"
| "parsedDocs (Doc js # ts) = js # parsedDocs ts"
| "parsedDocs (Malformed # ts) = parsedDocs ts"

definition eventDocs :: "(string \<times> FullEvent doc) list \<Rightarrow> FullEvent list" where
  "eventDocs dir = parsedDocs (storedDocs dir)"

text \<open>\<open>js.id || 0\<close>.\<close>

definition id_or_0 :: "FullEvent \<Rightarrow> int" where
  "id_or_0 js = (case eid js of Some n \<Rightarrow> n | None \<Rightarrow> 0)"

text \<open>The directory as \<open>cachedCenters()\<close> returns it.\<close>

definition directory :: "state \<Rightarrow> (string \<rightharpoonup> Center)" where
  "directory s = fst (cachedCenters s)"

text \<open>
  The entries of the index that pass the first filter of a query (date window and
  center).
\<close>

definition window :: "env \<Rightarrow> (string \<rightharpoonup> string) \<Rightarrow> state \<Rightarrow> EventIndexEntry list" where
  "window en query s =
     filter (inWindow (param_or query ''start'' (startDefault en)) (param_or query ''stop'' ''9999-99-99'')
               (param_or query ''center'' ''*''))
       (events (index s))"

text \<open>What a query answered: \<open>totalCount\<close> and the ids of the events, in order.\<close>

definition answer_ids :: "(error + query_result) \<times> state \<Rightarrow> error + nat \<times> int option list" where
  "answer_ids p = (case fst p of Inl e \<Rightarrow> Inl e | Inr r \<Rightarrow> Inr (totalCount r, map eid (res_events r)))"

text \<open>Unfolding the handlers on sample data.\<close>

lemmas eval_defs = post_api_events_def getCenterAsync_def cachedCenters_def lookup_def
  parseCenterAsync_def applyAndSave_def applyChanges_def saveEventAsync_def readEventAsync_def
  cachedEventText_def resolveEvent_def augmentEvent_def forIndex_def
  event_keys_def copyProp_def getProp_def setProp_def date_re_def time_re_def is_digit_def
  emptyEvent_def eventFn_def creates_def Let_def dec.simps

lemmas query_defs = queryEventsAsync_def selectEvents_def param_or_def inWindow_def js_gt_def
  countryOk_def eventCmp_def sort_cmp_def slice_from_def slice_to_def answer_ids_def
  getCenterAsync_def cachedCenters_def lookup_def augmentEvent_def emptyEvent_def Let_def

lemmas sample_defs = env0_def state1_def query1_def event0_def eventW_def eventG_def
  center0_def center1_def

lemma eventFn_samples:
  "eventFn (Some 1) = ''000001.json''" "eventFn (Some 1234567) = ''234567.json''"
  "eventFn (Some (- 5)) = ''0000-5.json''" "eventFn None = ''efined.json''"
  by (simp_all add: eventFn_def dec.simps)

lemma getCentersAsync_sample:
  "snd (getCentersAsync env0 [''x.json'', ''notes.txt'', ''w.json'']
          (state1\<lparr>hasAllCenters := False, centersVar := None\<rparr>)) = state1"
  by (simp add: getCentersAsync_def cachedCenters_def center_file_key_def is_word_def is_digit_def
      parseCenterAsync_def env0_def state1_def center0_def center1_def)

lemma parseInt_samples:
  "parseInt (Some ''0'') = Some 0" "parseInt (Some ''1'') = Some 1" "parseInt (Some ''7'') = Some 7"
  "parseInt (Some '' -12px'') = Some (- 12)" "parseInt (Some ''0x1f'') = Some 31"
  "parseInt (Some ''abc'') = None" "parseInt None = None"
  by (simp_all add: parseInt_def is_ws_def is_radix_digit_def digit_val_def radix_value_def)

section \<open>Properties of the field validator\<close>

lemma fold_copy_center:
  "center (fold (copyProp delta) event_keys cur) =
     (case center delta of None \<Rightarrow> center cur | Some v \<Rightarrow> Some v)"
  by (simp add: event_keys_def copyProp_def getProp_def setProp_def split: option.splits)

lemma fold_copy_eid: "eid (fold (copyProp delta) event_keys cur) = eid cur"
  by (simp add: event_keys_def copyProp_def getProp_def setProp_def split: option.splits)

lemma applyChanges_eid: "eid (snd (applyChanges cur delta)) = eid cur"
  by (simp add: applyChanges_def fold_copy_eid)

text \<open>
  The event half of atomic validation: every check of \<open>applyChanges\<close> comes before the
  copying loop, so a message leaves the record as it was.
\<close>

lemma applyChanges_atomic:
  "fst (applyChanges cur delta) \<noteq> [] \<Longrightarrow> snd (applyChanges cur delta) = cur"
  by (simp add: applyChanges_def split: if_splits)

text \<open>
  Claim C1, the center half. \<open>applyCenterChanges\<close> checks and assigns key by key. For the
  center \<open>center0\<close> and a delta with \<open>program = "p"\<close> and an \<open>about\<close> of 4001 characters, the
  call returns \<open>"about too long"\<close> after it has already assigned \<open>program\<close>: the record is
  not left unchanged.
\<close>

theorem applyCenterChanges_partial_update:
  "applyCenterChanges center0 centerDelta0 = (''about too long'', center0\<lparr>program := Some ''p''\<rparr>)
   \<and> program (snd (applyCenterChanges center0 centerDelta0)) \<noteq> program center0"
  by (simp add: applyCenterChanges_def center_keys_def getCenterProp_def setCenterProp_def
      center0_def centerDelta0_def)

text \<open>
  Claim C7. An event whose \<open>center\<close> is set and not empty keeps it: a delta with another
  \<open>center\<close> (or none) is rejected with \<open>"cannot change event center"\<close> and the record is
  returned as it was, and whatever the delta, the record's \<open>center\<close> is the same after the
  call.
\<close>

theorem applyChanges_center_immutable:
  assumes "center cur = Some c" and "c \<noteq> []"
  shows "(center delta \<noteq> Some c \<longrightarrow> applyChanges cur delta = (''cannot change event center'', cur))
         \<and> center (snd (applyChanges cur delta)) = Some c"
  using assms by (auto simp add: applyChanges_def fold_copy_center)

theorem applyChanges_center_immutable_witness:
  "center event0 = Some ''x'' \<and> center (event0\<lparr>center := Some ''y''\<rparr>) \<noteq> Some ''x''
   \<and> applyChanges event0 (event0\<lparr>center := Some ''y''\<rparr>) = (''cannot change event center'', event0)
   \<and> center (snd (applyChanges event0 (event0\<lparr>title := Some ''U''\<rparr>))) = Some ''x''"
  using applyChanges_center_immutable [of event0 "''x''" "event0\<lparr>center := Some ''y''\<rparr>"]
    applyChanges_center_immutable [of event0 "''x''" "event0\<lparr>title := Some ''U''\<rparr>"]
  by (simp add: event0_def emptyEvent_def)

text \<open>
  Claim C10. For an event whose \<open>center\<close> is set and not empty, a delta without the key
  \<open>center\<close> is rejected with \<open>"cannot change event center"\<close> (\<open>undefined\<close> is not equal to
  the center), and a delta that is accepted carries the event's own center.
\<close>

theorem applyChanges_delta_needs_center:
  assumes "center cur = Some c" and "c \<noteq> []"
  shows "(center delta = None \<longrightarrow> applyChanges cur delta = (''cannot change event center'', cur))
         \<and> (fst (applyChanges cur delta) = [] \<longrightarrow> center delta = Some c)"
  using assms by (auto simp add: applyChanges_def split: if_splits)

theorem applyChanges_delta_needs_center_witness:
  "center event0 = Some ''x'' \<and> center (emptyEvent\<lparr>title := Some ''U''\<rparr>) = None
   \<and> applyChanges event0 (emptyEvent\<lparr>title := Some ''U''\<rparr>) = (''cannot change event center'', event0)
   \<and> fst (applyChanges event0 (event0\<lparr>title := Some ''U''\<rparr>)) = []
   \<and> center (event0\<lparr>title := Some ''U''\<rparr>) = Some ''x''"
proof -
  have ok: "fst (applyChanges event0 (event0\<lparr>title := Some ''U''\<rparr>)) = []"
    by (simp add: applyChanges_def event0_def emptyEvent_def date_re_def is_digit_def)
  show ?thesis
    using applyChanges_delta_needs_center [of event0 "''x''" "emptyEvent\<lparr>title := Some ''U''\<rparr>"]
      applyChanges_delta_needs_center [of event0 "''x''" "event0\<lparr>title := Some ''U''\<rparr>"] ok
    by (simp add: event0_def emptyEvent_def)
qed

subsection \<open>Date and time patterns\<close>

lemma re_test_Nil: "re_test [] s \<longleftrightarrow> s = []"
  by (cases s) simp_all

lemma re_test_Cons:
  "re_test (p # ps) s \<longleftrightarrow> (\<exists>c cs. s = c # cs \<and> re_item_ok p c \<and> re_test ps cs)"
  by (cases s) simp_all

lemma date_re_iff:
  "re_test date_re s \<longleftrightarrow>
     (\<exists>y1 y2 y3 m1 m2 d1 d2.
        s = [CHR ''2'', y1, y2, y3, CHR ''-'', m1, m2, CHR ''-'', d1, d2]
        \<and> is_digit y1 \<and> is_digit y2 \<and> is_digit y3 \<and> is_digit m1 \<and> is_digit m2
        \<and> is_digit d1 \<and> is_digit d2)"
  unfolding date_re_def by (simp only: re_test_Cons re_test_Nil re_item_ok.simps) auto

lemma time_re_iff:
  "re_test time_re s \<longleftrightarrow>
     (\<exists>h1 h2 m1 m2. s = [h1, h2, CHR '':'', m1, m2]
        \<and> is_digit h1 \<and> is_digit h2 \<and> is_digit m1 \<and> is_digit m2)"
  unfolding time_re_def by (simp only: re_test_Cons re_test_Nil re_item_ok.simps) auto

text \<open>
  The pattern of claim C8 as the claim words it, \<open>YYYY-MM-DD\<close> with any four digits for the
  year; it is used to show where the code's pattern differs.
\<close>

definition claimed_date_re :: "re_item list" where
  "claimed_date_re = [Digit, Digit, Digit, Digit, Ch CHR ''-'', Digit, Digit, Ch CHR ''-'', Digit, Digit]"

text \<open>
  Claim C8 as stated fails: \<open>1999-12-31\<close> is a date with a four-digit year, and
  \<open>validDate\<close> refuses it, so \<open>applyChanges\<close> answers \<open>"invalid start date"\<close>.
\<close>

theorem validDate_year_counterexample:
  "re_test claimed_date_re ''1999-12-31'' \<and> \<not> validDate (Some ''1999-12-31'')
   \<and> fst (applyChanges emptyEvent (emptyEvent\<lparr>startDate := Some ''1999-12-31''\<rparr>)) = ''invalid start date''"
  by (simp add: claimed_date_re_def applyChanges_def emptyEvent_def date_re_def is_digit_def)

text \<open>
  Claim C8, amended. \<open>startDate\<close> and \<open>endDate\<close> are accepted exactly when they are absent,
  empty or of the form \<open>2ddd-dd-dd\<close> (ten characters, the year starting with \<open>2\<close>, \<open>d\<close> an
  ASCII digit); \<open>startTime\<close> exactly when it is absent, empty or of the form \<open>dd:dd\<close>.
  \<open>applyChanges\<close> gives each of the three messages exactly when the earlier checks pass
  and the value is not accepted.
\<close>

theorem valid_date_time_patterns:
  "(validDate d \<longleftrightarrow>
      d = None \<or> d = Some [] \<or>
      (\<exists>y1 y2 y3 m1 m2 d1 d2.
         d = Some [CHR ''2'', y1, y2, y3, CHR ''-'', m1, m2, CHR ''-'', d1, d2]
         \<and> is_digit y1 \<and> is_digit y2 \<and> is_digit y3 \<and> is_digit m1 \<and> is_digit m2
         \<and> is_digit d1 \<and> is_digit d2))
   \<and> (validTime t \<longleftrightarrow>
      t = None \<or> t = Some [] \<or>
      (\<exists>h1 h2 m1 m2. t = Some [h1, h2, CHR '':'', m1, m2]
         \<and> is_digit h1 \<and> is_digit h2 \<and> is_digit m1 \<and> is_digit m2))
   \<and> (fst (applyChanges cur delta) = ''invalid start date'' \<longleftrightarrow>
      \<not> (truthy (center cur) \<and> center delta \<noteq> center cur) \<and> \<not> validDate (startDate delta))
   \<and> (fst (applyChanges cur delta) = ''invalid end date'' \<longleftrightarrow>
      \<not> (truthy (center cur) \<and> center delta \<noteq> center cur) \<and> validDate (startDate delta)
      \<and> \<not> validDate (endDate delta))
   \<and> (fst (applyChanges cur delta) = ''invalid start time'' \<longleftrightarrow>
      \<not> (truthy (center cur) \<and> center delta \<noteq> center cur) \<and> validDate (startDate delta)
      \<and> validDate (endDate delta) \<and> \<not> validTime (startTime delta))"
proof (intro conjI)
  show "validDate d \<longleftrightarrow>
      d = None \<or> d = Some [] \<or>
      (\<exists>y1 y2 y3 m1 m2 d1 d2.
         d = Some [CHR ''2'', y1, y2, y3, CHR ''-'', m1, m2, CHR ''-'', d1, d2]
         \<and> is_digit y1 \<and> is_digit y2 \<and> is_digit y3 \<and> is_digit m1 \<and> is_digit m2
         \<and> is_digit d1 \<and> is_digit d2)"
    by (cases d) (simp_all add: date_re_iff)
  show "validTime t \<longleftrightarrow>
      t = None \<or> t = Some [] \<or>
      (\<exists>h1 h2 m1 m2. t = Some [h1, h2, CHR '':'', m1, m2]
         \<and> is_digit h1 \<and> is_digit h2 \<and> is_digit m1 \<and> is_digit m2)"
    by (cases t) (simp_all add: time_re_iff)
qed (simp_all add: applyChanges_def)

theorem valid_date_time_patterns_witness:
  "validDate (Some ''2024-05-01'') \<and> validTime (Some ''20:00'') \<and> \<not> validTime (Some ''8pm'')
   \<and> fst (applyChanges event0 (event0\<lparr>endDate := Some ''2024-5-1''\<rparr>)) = ''invalid end date''"
proof -
  have a: "validDate (Some ''2024-05-01'')" and b: "\<not> validDate (Some ''2024-5-1'')"
    by (simp_all add: date_re_def is_digit_def)
  show ?thesis
    using valid_date_time_patterns [of "Some ''2024-05-01''" "Some ''20:00''" event0
        "event0\<lparr>endDate := Some ''2024-5-1''\<rparr>"]
      valid_date_time_patterns [of "Some ''2024-05-01''" "Some ''8pm''" event0 event0] a b
    by (simp add: event0_def emptyEvent_def is_digit_def)
qed

section \<open>Properties of the center directory\<close>

text \<open>
  Claim C4. A notification with \<open>isPull = true\<close> empties the directory and resets
  \<open>hasAllCenters\<close>; the event cache, the index and the files stay as they are. Whatever
  the notification and whether or not the handler is subscribed yet, the event cache
  and the index are not touched, and the directory read after a pull is empty.
\<close>

theorem onUpdate_pull_frame:
  "centersVar (onUpdate_cb True s) = Some Map.empty
   \<and> fst (cachedCenters (onUpdate_cb True s)) = Map.empty
   \<and> hasAllCenters (onUpdate_cb True s) = False
   \<and> eventsCache (onUpdate_cb True s) = eventsCache s
   \<and> index (onUpdate_cb True s) = index s
   \<and> indexFile (onUpdate_cb True s) = indexFile s
   \<and> repoEvents (onUpdate_cb True s) = repoEvents s
   \<and> repoCenters (onUpdate_cb True s) = repoCenters s
   \<and> fst (cachedCenters (notifyUpdate True s)) = Map.empty
   \<and> eventsCache (notifyUpdate b s) = eventsCache s
   \<and> index (notifyUpdate b s) = index s"
  by (simp add: onUpdate_cb_def notifyUpdate_def cachedCenters_def split: option.splits)

section \<open>Properties of the index manager\<close>

subsection \<open>Rebuilding the index\<close>

lemma range_digits: "(48 \<le> (n::nat) \<and> n \<le> 57) \<longleftrightarrow> n \<in> {48, 49, 50, 51, 52, 53, 54, 55, 56, 57}"
proof
  assume "48 \<le> n \<and> n \<le> 57"
  then have "n \<in> {48..57}" by simp
  also have "{48..57} = {48, 49, 50, 51, 52, 53, 54, 55, 56, 57::nat}" by (simp add: atLeastAtMost_upt upt_rec)
  finally show "n \<in> {48, 49, 50, 51, 52, 53, 54, 55, 56, 57}" .
next
  assume "n \<in> {48, 49, 50, 51, 52, 53, 54, 55, 56, 57}"
  then show "48 \<le> n \<and> n \<le> 57" by auto
qed

lemma is_digit_iff: "is_digit c \<longleftrightarrow> c \<in> set ''0123456789''"
proof
  assume "is_digit c"
  then have "48 \<le> (of_char c :: nat) \<and> (of_char c :: nat) \<le> 57"
    by (simp add: is_digit_def less_eq_char_def)
  then have "(of_char c :: nat) \<in> {48, 49, 50, 51, 52, 53, 54, 55, 56, 57}"
    by (simp only: range_digits)
  then have "(of_char c :: nat) \<in> of_char ` set ''0123456789''" by simp
  then obtain d where "d \<in> set ''0123456789''" and "(of_char c :: nat) = of_char d" by blast
  then show "c \<in> set ''0123456789''" by (simp only: of_char_eq_iff)
next
  assume "c \<in> set ''0123456789''"
  then show "is_digit c" by (auto simp add: is_digit_def)
qed

lemma is_event_file_iff: "is_event_file fn \<longleftrightarrow> digits_json fn"
proof
  assume a: "is_event_file fn"
  define tw where "tw = takeWhile is_digit fn"
  from a have ne: "tw \<noteq> []" and dw: "dropWhile is_digit fn = ''.json''"
    by (simp_all add: is_event_file_def tw_def)
  have "takeWhile is_digit fn @ dropWhile is_digit fn = fn" by (rule takeWhile_dropWhile_id)
  then have fn: "fn = tw @ ''.json''" unfolding dw tw_def [symmetric] by (rule sym)
  have "\<And>x. x \<in> set tw \<Longrightarrow> is_digit x" unfolding tw_def by (rule set_takeWhileD [THEN conjunct2])
  then have "set tw \<subseteq> set ''0123456789''" unfolding is_digit_iff by (rule subsetI)
  with ne show "digits_json fn" unfolding digits_json_def fn by simp
next
  assume d: "digits_json fn"
  define ds where "ds = take (length fn - 5) fn"
  from d have tl: "drop (length fn - 5) fn = ''.json''" and len: "5 < length fn"
    and sub: "set ds \<subseteq> set ''0123456789''"
    unfolding digits_json_def ds_def by blast+
  have "take (length fn - 5) fn @ drop (length fn - 5) fn = fn" by (rule append_take_drop_id)
  then have fn: "fn = ds @ ''.json''" unfolding tl ds_def [symmetric] by (rule sym)
  from len have ne: "ds \<noteq> []" unfolding ds_def by auto
  from sub have dg: "\<And>x. x \<in> set ds \<Longrightarrow> is_digit x"
    unfolding is_digit_iff by (rule subsetD)
  have nd: "\<not> is_digit CHR ''.''" by (simp add: is_digit_def)
  have "takeWhile is_digit (ds @ ''.json'') = ds" by (simp add: takeWhile_append2 dg nd)
  moreover have "dropWhile is_digit (ds @ ''.json'') = ''.json''" by (simp add: dropWhile_append2 dg nd)
  ultimately show "is_event_file fn" using ne unfolding fn by (simp add: is_event_file_def)
qed

lemma scanEvents_eq:
  "scanEvents dir idx =
     (if Malformed \<in> set (storedDocs dir) then Inl SyntaxError
      else Inr \<lparr>events = events idx @ map forIndex (eventDocs dir),
                nextId = fold max (map id_or_0 (eventDocs dir)) (nextId idx)\<rparr>)"
proof (induction dir arbitrary: idx)
  case Nil
  then show ?case by (simp add: eventDocs_def)
next
  case (Cons a dir)
  obtain fn t where a: "a = (fn, t)" by (cases a)
  show ?case
  proof (cases "digits_json fn")
    case True
    then have f: "is_event_file fn" by (simp add: is_event_file_iff)
    show ?thesis
    proof (cases t)
      case Malformed
      with True f a show ?thesis by simp
    next
      case (Doc js)
      have i: "(case eid js of Some n \<Rightarrow> n | None \<Rightarrow> 0) = id_or_0 js"
        by (simp add: id_or_0_def)
      from Doc True f a Cons.IH show ?thesis
        by (simp add: eventDocs_def i max.commute)
    qed
  next
    case False
    then have "\<not> is_event_file fn" by (simp add: is_event_file_iff)
    with False a Cons.IH show ?thesis by (simp add: eventDocs_def)
  qed
qed

lemma loadOrCreateIndex_eq:
  "loadOrCreateIndex None dir =
     (if Malformed \<in> set (storedDocs dir) then Inl SyntaxError
      else Inr \<lparr>events = map forIndex (eventDocs dir),
                nextId = Max (insert 0 (id_or_0 ` set (eventDocs dir))) + 1\<rparr>)"
proof -
  have m: "Max (insert 0 (id_or_0 ` set (eventDocs dir))) = fold max (map id_or_0 (eventDocs dir)) 0"
    using Max.set_eq_fold [of 0 "map id_or_0 (eventDocs dir)"] by simp
  show ?thesis
    using scanEvents_eq [of dir "\<lparr>events = [], nextId = 0\<rparr>"]
    by (simp add: loadOrCreateIndex_def m)
qed

text \<open>
  With a document whose id is not negative, the maximum of 0 and the ids (an absent id
  counting as 0) is the maximum of the ids found.
\<close>

lemma Max_observed_ids:
  assumes "js \<in> set docs" and "eid js = Some m" and "0 \<le> m"
  shows "Max (insert 0 (id_or_0 ` set docs)) = Max {n. \<exists>d \<in> set docs. eid d = Some n}"
proof -
  let ?S = "{n. \<exists>d \<in> set docs. eid d = Some n}"
  have sub: "?S \<subseteq> id_or_0 ` set docs" by (force simp add: id_or_0_def)
  then have fin: "finite ?S" by (rule finite_subset) simp
  from assms have mem: "m \<in> ?S" by blast
  then have ne: "?S \<noteq> {}" by blast
  from fin mem have mle: "m \<le> Max ?S" by (rule Max_ge)
  show ?thesis
  proof (rule Max_eqI)
    show "finite (insert 0 (id_or_0 ` set docs))" by simp
  next
    fix y assume "y \<in> insert 0 (id_or_0 ` set docs)"
    then consider "y = 0" | d where "d \<in> set docs" "y = id_or_0 d" by blast
    then show "y \<le> Max ?S"
    proof cases
      case 1
      with assms(3) mle show ?thesis by simp
    next
      case 2
      show ?thesis
      proof (cases "eid d")
        case None
        with 2 assms(3) mle show ?thesis by (simp add: id_or_0_def)
      next
        case (Some n)
        with 2 have "y \<in> ?S" by (auto simp add: id_or_0_def)
        with fin show ?thesis by (rule Max_ge)
      qed
    qed
  next
    from fin ne have "Max ?S \<in> ?S" by (rule Max_in)
    with sub show "Max ?S \<in> insert 0 (id_or_0 ` set docs)" by blast
  qed
qed

text \<open>
  Claim C9. Without a snapshot \<open>loadOrCreateIndex\<close> reads the stored event documents, the
  files named \<open><digits>.json\<close>. If one of them does not parse it throws; otherwise it
  returns the index with one summary per document, in the order of the listing, each
  made of the document's \<open>id\<close>, \<open>startDate\<close>, \<open>endDate\<close>, \<open>title\<close> and \<open>center\<close> and nothing
  else, and with \<open>nextId\<close> one past the maximum observed id, or one past 0 if there are
  no documents. (The ids the index hands out are positive; the maximum observed id is
  meant for documents of which at least one has an id that is not negative.) \<open>nextId\<close>
  is above every id observed.
\<close>

theorem loadOrCreateIndex_rebuild:
  "loadOrCreateIndex None dir =
     (if Malformed \<in> set (storedDocs dir) then Inl SyntaxError
      else Inr \<lparr>events =
                  map (\<lambda>js. \<lparr>eid = eid js, startDate = startDate js, endDate = endDate js,
                         title = title js, center = center js, fullcity = None,
                         weekdayRange = None, dateRange = None, combinedRange = None,
                         name = None, address = None, startTime = None, description = None\<rparr>)
                    (eventDocs dir),
                nextId = Max (insert 0 (id_or_0 ` set (eventDocs dir))) + 1\<rparr>)
   \<and> (\<forall>idx. loadOrCreateIndex None dir = Inr idx \<longrightarrow>
         length (events idx) = length (eventDocs dir)
       \<and> (eventDocs dir = [] \<longrightarrow> nextId idx = 0 + 1)
       \<and> ((\<exists>js \<in> set (eventDocs dir). \<exists>m. eid js = Some m \<and> 0 \<le> m) \<longrightarrow>
            nextId idx = Max {n. \<exists>d \<in> set (eventDocs dir). eid d = Some n} + 1)
       \<and> (\<forall>js \<in> set (eventDocs dir). \<forall>n. eid js = Some n \<longrightarrow> n < nextId idx))"
proof (intro conjI allI impI)
  show "loadOrCreateIndex None dir =
     (if Malformed \<in> set (storedDocs dir) then Inl SyntaxError
      else Inr \<lparr>events =
                  map (\<lambda>js. \<lparr>eid = eid js, startDate = startDate js, endDate = endDate js,
                         title = title js, center = center js, fullcity = None,
                         weekdayRange = None, dateRange = None, combinedRange = None,
                         name = None, address = None, startTime = None, description = None\<rparr>)
                    (eventDocs dir),
                nextId = Max (insert 0 (id_or_0 ` set (eventDocs dir))) + 1\<rparr>)"
    by (simp add: loadOrCreateIndex_eq forIndex_def emptyEvent_def)
next
  fix idx assume r: "loadOrCreateIndex None dir = Inr idx"
  then have idx: "idx = \<lparr>events = map forIndex (eventDocs dir),
      nextId = Max (insert 0 (id_or_0 ` set (eventDocs dir))) + 1\<rparr>"
    by (simp add: loadOrCreateIndex_eq split: if_splits)
  show "length (events idx) = length (eventDocs dir)" by (simp add: idx)
  show "nextId idx = 0 + 1" if "eventDocs dir = []" using that by (simp add: idx)
  show "nextId idx = Max {n. \<exists>d \<in> set (eventDocs dir). eid d = Some n} + 1"
    if "\<exists>js \<in> set (eventDocs dir). \<exists>m. eid js = Some m \<and> 0 \<le> m"
  proof -
    from that obtain js m where "js \<in> set (eventDocs dir)" "eid js = Some m" "0 \<le> m" by blast
    from Max_observed_ids [OF this] show ?thesis by (simp add: idx)
  qed
  show "\<forall>js \<in> set (eventDocs dir). \<forall>n. eid js = Some n \<longrightarrow> n < nextId idx"
  proof (intro ballI allI impI)
    fix js n assume js: "js \<in> set (eventDocs dir)" and n: "eid js = Some n"
    then have "n \<in> insert 0 (id_or_0 ` set (eventDocs dir))" by (force simp add: id_or_0_def)
    then have "n \<le> Max (insert 0 (id_or_0 ` set (eventDocs dir)))" by (intro Max_ge) auto
    then show "n < nextId idx" by (simp add: idx)
  qed
qed

theorem loadOrCreateIndex_rebuild_witness:
  "Malformed \<notin> set (storedDocs dir0)
   \<and> loadOrCreateIndex None dir0 = Inr \<lparr>events = [event0\<lparr>eid := Some 3\<rparr>, event0], nextId = 4\<rparr>
   \<and> Max {n. \<exists>d \<in> set (eventDocs dir0). eid d = Some n} + 1 = 4
   \<and> eventDocs [] = []
   \<and> loadOrCreateIndex None [] = Inr \<lparr>events = [], nextId = 0 + 1\<rparr>
   \<and> loadOrCreateIndex None [(''7.json'', Malformed)] = Inl SyntaxError"
proof -
  have st: "storedDocs dir0 = [Doc (event0\<lparr>eid := Some 3, address := Some ''2 Side St''\<rparr>), Doc event0]"
    by (simp add: dir0_def digits_json_def)
  have docs: "eventDocs dir0 = [event0\<lparr>eid := Some 3, address := Some ''2 Side St''\<rparr>, event0]"
    by (simp add: eventDocs_def st)
  have ok: "Malformed \<notin> set (storedDocs dir0)" by (simp add: st)
  note t0 = loadOrCreateIndex_rebuild [of dir0]
  from t0 have "loadOrCreateIndex None dir0 =
     (if Malformed \<in> set (storedDocs dir0) then Inl SyntaxError
      else Inr \<lparr>events =
                  map (\<lambda>js. \<lparr>eid = eid js, startDate = startDate js, endDate = endDate js,
                         title = title js, center = center js, fullcity = None,
                         weekdayRange = None, dateRange = None, combinedRange = None,
                         name = None, address = None, startTime = None, description = None\<rparr>)
                    (eventDocs dir0),
                nextId = Max (insert 0 (id_or_0 ` set (eventDocs dir0))) + 1\<rparr>)"
    by (rule conjunct1)
  with ok have r0: "loadOrCreateIndex None dir0 =
      Inr \<lparr>events = [event0\<lparr>eid := Some 3\<rparr>, event0], nextId = 4\<rparr>"
    by (simp add: docs id_or_0_def event0_def emptyEvent_def)
  have ex: "\<exists>js \<in> set (eventDocs dir0). \<exists>m. eid js = Some m \<and> 0 \<le> m"
    by (simp add: docs event0_def emptyEvent_def)
  from t0 r0 ex
  have "nextId \<lparr>events = [event0\<lparr>eid := Some 3\<rparr>, event0], nextId = 4\<rparr> =
      Max {n. \<exists>d \<in> set (eventDocs dir0). eid d = Some n} + 1"
    by blast
  then have "4 = Max {n. \<exists>d \<in> set (eventDocs dir0). eid d = Some n} + 1"
    by (simp only: EventIndex.select_convs)
  then have m0: "Max {n. \<exists>d \<in> set (eventDocs dir0). eid d = Some n} + 1 = 4"
    by (rule sym)
  have e: "eventDocs [] = []" by (simp add: eventDocs_def)
  have "Malformed \<notin> set (storedDocs [])" by simp
  with loadOrCreateIndex_rebuild [of "[]", THEN conjunct1] e
  have r1: "loadOrCreateIndex None [] = Inr \<lparr>events = [], nextId = 0 + 1\<rparr>"
    by simp
  have "Malformed \<in> set (storedDocs [(''7.json'', Malformed)])"
    by (simp add: digits_json_def)
  with loadOrCreateIndex_rebuild [of "[(''7.json'', Malformed)]", THEN conjunct1]
  have r2: "loadOrCreateIndex None [(''7.json'', Malformed)] = Inl SyntaxError"
    by (simp only: if_True)
  from ok r0 m0 e r1 r2 show ?thesis by blast
qed

subsection \<open>The handlers leave the index alone, but for the save\<close>

lemma cachedCenters_index: "index (snd (cachedCenters s)) = index s"
  by (simp add: cachedCenters_def split: option.splits)

lemma getCenterAsync_index: "index (snd (getCenterAsync en i s)) = index s"
  by (simp add: getCenterAsync_def cachedCenters_def Let_def split: option.splits sum.splits)

lemma augmentEvent_index: "index (snd (augmentEvent en ev s)) = index s"
  by (simp add: augmentEvent_def cachedCenters_def Let_def split: option.splits)

lemma cachedEventText_index: "index (snd (cachedEventText i s)) = index s"
  by (simp add: cachedEventText_def split: option.splits)

lemma resolveEvent_index: "index (snd (resolveEvent en r s)) = index s"
  by (simp add: resolveEvent_def case_prod_beta Let_def getCenterAsync_index augmentEvent_index
      split: option.splits sum.splits)

lemma readEventAsync_index: "index (snd (readEventAsync en i s)) = index s"
  by (simp add: readEventAsync_def case_prod_beta resolveEvent_index cachedEventText_index
      split: sum.splits doc.splits)

lemma saveEventAsync_nextId: "nextId (index (saveEventAsync e u s)) = nextId (index s)"
  by (simp add: saveEventAsync_def Let_def)

subsection \<open>The counter\<close>

lemma applyAndSave_cases:
  assumes h: "applyAndSave req cen currElt isFresh s = (r, s')"
  shows "(\<exists>err. err \<noteq> [] \<and> r = Inr (JsonError 412 err) \<and> s' = s) \<or>
     (\<exists>ev. r = Inr (Json ev) \<and> eid ev = eid currElt
        \<and> nextId (index s') = (if isFresh then nextId (index s) + 1 else nextId (index s)))"
proof -
  obtain err c1 where ac: "applyChanges currElt (body req) = (err, c1)"
    by (cases "applyChanges currElt (body req)")
  have e1: "eid c1 = eid currElt" using applyChanges_eid [of currElt "body req"] ac by simp
  show ?thesis
  proof (cases "err = []")
    case True
    with h ac e1 show ?thesis
      by (auto simp add: applyAndSave_def Let_def saveEventAsync_nextId)
  next
    case False
    with h ac show ?thesis by (auto simp add: applyAndSave_def)
  qed
qed

text \<open>
  One request: either it creates an event, which gets the current \<open>nextId\<close> and moves the
  counter by one, or the counter stays.
\<close>

lemma post_api_events_nextId:
  assumes "post_api_events en req s = (r, s')"
  shows "(\<exists>ev. r = Inr (Json ev) \<and> creates req \<and> eid ev = Some (nextId (index s)) \<and> nextId (index s') = nextId (index s) + 1)
       \<or> (\<not> (creates req \<and> (\<exists>ev. r = Inr (Json ev))) \<and> nextId (index s') = nextId (index s))"
proof -
  have g: "\<And>c s1 s2 r. getCenterAsync en c s1 = (r, s2) \<Longrightarrow> index s2 = index s1"
    using getCenterAsync_index by (metis snd_conv)
  have rd: "\<And>i s1 s2 r. readEventAsync en i s1 = (r, s2) \<Longrightarrow> index s2 = index s1"
    using readEventAsync_index by (metis snd_conv)
  show ?thesis
  proof (cases "truthy (appuser req)")
    case False
    with assms show ?thesis by (auto simp add: post_api_events_def)
  next
    case True
    obtain rc s1 where gc: "getCenterAsync en (center (body req)) s = (rc, s1)"
      by (cases "getCenterAsync en (center (body req)) s")
    have i1: "index s1 = index s" using g [OF gc] .
    show ?thesis
    proof (cases rc)
      case (Inl e)
      with assms True gc i1 show ?thesis by (auto simp add: post_api_events_def)
    next
      case (Inr co)
      show ?thesis
      proof (cases co)
        case None
        with assms True gc i1 Inr show ?thesis by (auto simp add: post_api_events_def)
      next
        case (Some cen)
        show ?thesis
        proof (cases "hasWritePerm en (or_empty (appuser req)) (users cen)")
          case False
          with assms True gc i1 Inr Some show ?thesis by (auto simp add: post_api_events_def)
        next
          case perm: True
          let ?fresh = "emptyEvent\<lparr>eid := Some (nextId (index s1))\<rparr>"
          show ?thesis
          proof (cases "creates req")
            case cr: True
            then have "applyAndSave req cen ?fresh True s1 = (r, s')"
              using assms True gc Inr Some perm
              by (auto simp add: post_api_events_def creates_def Let_def split: option.splits if_splits)
            from applyAndSave_cases [OF this] cr i1 show ?thesis by auto
          next
            case ncr: False
            then obtain i where i: "eid (body req) = Some i" "0 < i"
              by (auto simp add: creates_def split: option.splits)
            obtain rr s2 where re: "readEventAsync en i s1 = (rr, s2)" by (cases "readEventAsync en i s1")
            have i2: "index s2 = index s" using rd [OF re] i1 by simp
            show ?thesis
            proof (cases rr)
              case (Inl e)
              with assms True gc Inr Some perm i re i2 ncr show ?thesis
                by (auto simp add: post_api_events_def Let_def)
            next
              case rinr: (Inr eo)
              show ?thesis
              proof (cases eo)
                case None
                with assms True gc Inr Some perm i re i2 ncr rinr show ?thesis
                  by (auto simp add: post_api_events_def Let_def)
              next
                case (Some currElt)
                then have "applyAndSave req cen currElt False s2 = (r, s')"
                  using assms True gc Inr \<open>co = Some cen\<close> perm i re rinr
                  by (auto simp add: post_api_events_def Let_def)
                from applyAndSave_cases [OF this] ncr i2 show ?thesis by auto
              qed
            qed
          qed
        qed
      qed
    qed
  qed
qed


text \<open>Along a sequence the ids given out are increasing, from the counter at the start.\<close>

lemma run_assignedIds:
  "nextId (index s) \<le> nextId (index (snd (run en reqs s)))
   \<and> distinct (assignedIds en reqs s)
   \<and> (\<forall>x \<in> set (assignedIds en reqs s).
        \<exists>i. x = Some i \<and> nextId (index s) \<le> i \<and> i < nextId (index (snd (run en reqs s))))"
proof (induction reqs arbitrary: s)
  case Nil
  then show ?case by simp
next
  case (Cons req reqs)
  obtain r s1 where p: "post_api_events en req s = (r, s1)" by (cases "post_api_events en req s")
  note ih = Cons.IH [of s1]
  from post_api_events_nextId [OF p] show ?case
  proof
    assume "\<exists>ev. r = Inr (Json ev) \<and> creates req \<and> eid ev = Some (nextId (index s))
              \<and> nextId (index s1) = nextId (index s) + 1"
    then obtain ev where ev: "r = Inr (Json ev)" "creates req" "eid ev = Some (nextId (index s))"
      "nextId (index s1) = nextId (index s) + 1" by blast
    have a: "assignedIds en (req # reqs) s = Some (nextId (index s)) # assignedIds en reqs s1"
      using p ev by simp
    have r: "snd (run en (req # reqs) s) = snd (run en reqs s1)"
      using p by (simp add: case_prod_beta)
    from ih ev(4) show ?thesis unfolding a r by fastforce
  next
    assume h: "\<not> (creates req \<and> (\<exists>ev. r = Inr (Json ev))) \<and> nextId (index s1) = nextId (index s)"
    then have "created_id req r = []" by (cases "(req, r)" rule: created_id.cases) auto
    then have a: "assignedIds en (req # reqs) s = assignedIds en reqs s1"
      using p by simp
    have r: "snd (run en (req # reqs) s) = snd (run en reqs s1)"
      using p by (simp add: case_prod_beta)
    from ih h show ?thesis unfolding a r by simp
  qed
qed

text \<open>
  Claim C3. A request to \<open>POST /api/events\<close> never lowers \<open>nextId\<close>. A request that creates
  an event and is answered with it has given the event the \<open>nextId\<close> of before and has
  raised \<open>nextId\<close> by exactly one. A request refused by validation (412) leaves \<open>nextId\<close>
  as it was, and so does every update. Along any sequence of requests \<open>nextId\<close> does not
  decrease, the ids given out are pairwise distinct, and each lies between the counter
  at the start and the counter at the end.
\<close>

theorem nextId_allocation:
  assumes "post_api_events en req s = (r, s')"
  shows "nextId (index s) \<le> nextId (index s')
     \<and> (\<forall>ev. creates req \<and> r = Inr (Json ev) \<longrightarrow>
           eid ev = Some (nextId (index s)) \<and> nextId (index s') = nextId (index s) + 1)
     \<and> (\<forall>err. r = Inr (JsonError 412 err) \<longrightarrow> nextId (index s') = nextId (index s))
     \<and> (\<not> creates req \<longrightarrow> nextId (index s') = nextId (index s))
     \<and> nextId (index s) \<le> nextId (index (snd (run en reqs s)))
     \<and> distinct (assignedIds en reqs s)
     \<and> (\<forall>x \<in> set (assignedIds en reqs s).
          \<exists>i. x = Some i \<and> nextId (index s) \<le> i \<and> i < nextId (index (snd (run en reqs s))))"
proof -
  from post_api_events_nextId [OF assms]
  have one: "nextId (index s) \<le> nextId (index s')
     \<and> (\<forall>ev. creates req \<and> r = Inr (Json ev) \<longrightarrow>
           eid ev = Some (nextId (index s)) \<and> nextId (index s') = nextId (index s) + 1)
     \<and> (\<forall>err. r = Inr (JsonError 412 err) \<longrightarrow> nextId (index s') = nextId (index s))
     \<and> (\<not> creates req \<longrightarrow> nextId (index s') = nextId (index s))"
    by auto
  with run_assignedIds [of s en reqs] show ?thesis by simp
qed

theorem nextId_allocation_witness:
  "creates reqNew
   \<and> fst (post_api_events env0 reqNew state0) = Inr (Json event0)
   \<and> eid event0 = Some (nextId (index state0))
   \<and> nextId (index (snd (post_api_events env0 reqNew state0))) = nextId (index state0) + 1
   \<and> fst (post_api_events env0 reqBad state0) = Inr (JsonError 412 ''invalid start date'')
   \<and> nextId (index (snd (post_api_events env0 reqBad state0))) = nextId (index state0)
   \<and> assignedIds env0 [reqNew, reqBad, reqNew] state0 = [Some 1, Some 2]
   \<and> distinct (assignedIds env0 [reqNew, reqBad, reqNew] state0)"
proof -
  have f1: "fst (post_api_events env0 reqNew state0) = Inr (Json event0)"
    by (simp add: eval_defs env0_def state0_def reqNew_def center0_def event0_def)
  have new: "post_api_events env0 reqNew state0 =
      (Inr (Json event0), snd (post_api_events env0 reqNew state0))"
    by (rule prod_eqI) (simp_all add: f1)
  have f2: "fst (post_api_events env0 reqBad state0) = Inr (JsonError 412 ''invalid start date'')"
    by (simp add: eval_defs env0_def state0_def reqBad_def center0_def)
  have bad: "post_api_events env0 reqBad state0 =
      (Inr (JsonError 412 ''invalid start date''), snd (post_api_events env0 reqBad state0))"
    by (rule prod_eqI) (simp_all add: f2)
  have ids: "assignedIds env0 [reqNew, reqBad, reqNew] state0 = [Some 1, Some 2]"
    by (simp add: eval_defs env0_def state0_def reqNew_def reqBad_def center0_def event0_def)
  have cr: "creates reqNew" by (simp add: creates_def reqNew_def emptyEvent_def)
  note t1 = nextId_allocation [OF new, of "[reqNew, reqBad, reqNew]"]
  from t1 cr have a1: "eid event0 = Some (nextId (index state0))"
    and a2: "nextId (index (snd (post_api_events env0 reqNew state0))) = nextId (index state0) + 1"
    by blast+
  from t1 have d: "distinct (assignedIds env0 [reqNew, reqBad, reqNew] state0)" by blast
  from nextId_allocation [OF bad, of "[]"]
  have b: "nextId (index (snd (post_api_events env0 reqBad state0))) = nextId (index state0)"
    by blast
  from cr f1 a1 a2 f2 b ids d show ?thesis by blast
qed

section \<open>Properties of the query engine\<close>

subsection \<open>Sorting and augmenting keep the entries\<close>

lemma length_insort_cmp: "length (insort_cmp c x ys) = Suc (length ys)"
  by (induction ys) simp_all

lemma length_sort_cmp: "length (sort_cmp c xs) = length xs"
  by (induction xs) (simp_all add: sort_cmp_def length_insort_cmp)

lemma count_insort_cmp: "count_list (insort_cmp c x ys) e = count_list (x # ys) e"
  by (induction ys) auto

lemma count_sort_cmp: "count_list (sort_cmp c xs) e = count_list xs e"
  by (induction xs) (simp_all add: sort_cmp_def count_insort_cmp)

lemma count_filter: "count_list (filter P xs) e = (if P e then count_list xs e else 0)"
  by (induction xs) simp_all

lemma set_sort_cmp: "set (sort_cmp c xs) = set xs"
proof -
  have "\<And>e. e \<in> set (sort_cmp c xs) \<longleftrightarrow> e \<in> set xs"
    using count_sort_cmp [of c xs] by (metis count_list_0_iff)
  then show ?thesis by blast
qed

lemma directory_cachedCenters: "directory (snd (cachedCenters s)) = directory s"
  by (simp add: directory_def cachedCenters_def split: option.splits)

lemma directory_augmentEvent: "directory (snd (augmentEvent en e s)) = directory s"
  by (simp add: augmentEvent_def case_prod_beta Let_def directory_cachedCenters)

lemma augmentAll_frame:
  "length (fst (augmentAll en es s)) = length es
   \<and> directory (snd (augmentAll en es s)) = directory s
   \<and> index (snd (augmentAll en es s)) = index s"
  by (induction es arbitrary: s)
    (simp_all add: case_prod_beta directory_augmentEvent augmentEvent_index)

lemma fetchCenters_index: "index (snd (fetchCenters en es s)) = index s"
proof (induction es arbitrary: s)
  case Nil
  then show ?case by simp
next
  case (Cons e es)
  obtain r s1 where g: "getCenterAsync en (center e) s = (r, s1)" by (cases "getCenterAsync en (center e) s")
  then have "index s1 = index s" using getCenterAsync_index [of en "center e" s] by simp
  with Cons.IH [of s1] g show ?case by (cases r) simp_all
qed

lemma selectEvents_Inr:
  "selectEvents en query s = (Inr evs, s1) \<longleftrightarrow>
     (\<exists>s0. fetchCenters en (window en query s) s = (Inr (), s0)
        \<and> (if param_or query ''country'' ''*'' \<noteq> ''*''
            then evs = sort_cmp (eventCmp en) (filter (countryOk (directory s0) (param_or query ''country'' ''*'')) (window en query s))
                 \<and> s1 = snd (cachedCenters s0)
            else evs = sort_cmp (eventCmp en) (window en query s) \<and> s1 = s0))"
proof -
  obtain r s0 where f: "fetchCenters en (window en query s) s = (r, s0)"
    by (cases "fetchCenters en (window en query s) s")
  show ?thesis
  proof (cases r)
    case (Inl a)
    with f show ?thesis by (simp add: selectEvents_def window_def Let_def)
  next
    case (Inr u)
    with f show ?thesis
      by (auto simp add: selectEvents_def window_def Let_def case_prod_beta directory_def)
  qed
qed

lemma selectEvents_frame:
  assumes "selectEvents en query s = (Inr evs, s1)"
  shows "length evs = length (filter (\<lambda>e. param_or query ''country'' ''*'' = ''*'' \<or>
            countryOk (directory s1) (param_or query ''country'' ''*'') e) (window en query s))"
proof -
  from assms obtain s0 where s0: "fetchCenters en (window en query s) s = (Inr (), s0)"
    and c: "if param_or query ''country'' ''*'' \<noteq> ''*''
            then evs = sort_cmp (eventCmp en) (filter (countryOk (directory s0) (param_or query ''country'' ''*'')) (window en query s))
                 \<and> s1 = snd (cachedCenters s0)
            else evs = sort_cmp (eventCmp en) (window en query s) \<and> s1 = s0"
    unfolding selectEvents_Inr by blast
  show ?thesis
  proof (cases "param_or query ''country'' ''*'' = ''*''")
    case True
    with c show ?thesis by (simp add: length_sort_cmp)
  next
    case False
    with c show ?thesis by (simp add: length_sort_cmp directory_cachedCenters)
  qed
qed


lemma param_or_other:
  "k \<noteq> ''country'' \<Longrightarrow> param_or (query(''country'' \<mapsto> c)) k d = param_or query k d"
  by (simp add: param_or_def)

lemma window_country: "window en (query(''country'' \<mapsto> c)) s = window en query s"
  by (simp add: window_def param_or_other)

lemma queryEventsAsync_Inr:
  "queryEventsAsync en query s = (Inr r, s') \<Longrightarrow>
     \<exists>evs s1. selectEvents en query s = (Inr evs, s1) \<and> totalCount r = length evs
        \<and> directory s' = directory s1
        \<and> length (res_events r) \<le> length evs
        \<and> length (res_events r) \<le>
            (case parseInt (query ''count'') of None \<Rightarrow> 100
             | Some n \<Rightarrow> if n = 0 then 100 else min (nat \<bar>n\<bar>) 100)"
proof -
  assume h: "queryEventsAsync en query s = (Inr r, s')"
  obtain x s1 where se: "selectEvents en query s = (x, s1)" by (cases "selectEvents en query s")
  show ?thesis
  proof (cases x)
    case (Inl a)
    with h se show ?thesis by (simp add: queryEventsAsync_def)
  next
    case (Inr evs)
    define skip where "skip = (case parseInt (query ''skip'') of Some n \<Rightarrow> n | None \<Rightarrow> 0)"
    define evs1 where "evs1 = (if skip \<noteq> 0 then slice_from skip evs else evs)"
    define count0 where "count0 = \<bar>case parseInt (query ''count'') of
                           Some n \<Rightarrow> if n \<noteq> 0 then n else 100
                         | None \<Rightarrow> (100::int)\<bar>"
    define count where "count = (if count0 > 100 then 100 else count0)"
    define evs2 where "evs2 = (if int (length evs1) > count then slice_to count evs1 else evs1)"
    from h se Inr have r: "r = \<lparr>totalCount = length evs, res_events = fst (augmentAll en evs2 s1)\<rparr>"
      and s': "s' = snd (augmentAll en evs2 s1)"
      unfolding evs2_def count_def count0_def evs1_def skip_def
      by (auto simp add: queryEventsAsync_def Let_def case_prod_beta)
    have l1: "length evs1 \<le> length evs" by (simp add: evs1_def slice_from_def)
    have c0: "0 \<le> count" by (simp add: count_def count0_def)
    have l2: "length evs2 \<le> length evs1" by (simp add: evs2_def slice_to_def) arith
    have l3: "int (length evs2) \<le> count" using c0 by (simp add: evs2_def slice_to_def)
    have c: "count = (case parseInt (query ''count'') of None \<Rightarrow> 100
             | Some n \<Rightarrow> if n = 0 then 100 else int (min (nat \<bar>n\<bar>) 100))"
      by (auto simp add: count_def count0_def split: option.splits)
    have len: "length (res_events r) = length evs2" using r augmentAll_frame [of en evs2 s1] by simp
    have "length evs2 \<le> (case parseInt (query ''count'') of None \<Rightarrow> 100
             | Some n \<Rightarrow> if n = 0 then 100 else min (nat \<bar>n\<bar>) 100)"
      using l3 c by (auto split: option.splits)
    with se Inr r s' l1 l2 len augmentAll_frame [of en evs2 s1] show ?thesis by simp
  qed
qed


lemma queryEventsAsync_total:
  "selectEvents en query s = (Inr evs, s1) \<Longrightarrow>
     \<exists>r s'. queryEventsAsync en query s = (Inr r, s') \<and> totalCount r = length evs"
  by (simp add: queryEventsAsync_def Let_def case_prod_beta)

subsection \<open>Pagination\<close>

text \<open>
  Claim C5 as stated fails for \<open>count = "0"\<close>: \<open>parseInt\<close> gives 0, which \<open>|| 100\<close> replaces
  by 100, so the query returns all three events where the claim allows \<open>min(0, 100) = 0\<close>.
\<close>

theorem query_count_zero_counterexample:
  "parseInt ((query1(''count'' \<mapsto> ''0'')) ''count'') = Some 0
   \<and> answer_ids (queryEventsAsync env0 (query1(''count'' \<mapsto> ''0'')) state1) = Inr (3, [Some 1, Some 2, Some 3])
   \<and> \<not> (case fst (queryEventsAsync env0 (query1(''count'' \<mapsto> ''0'')) state1) of
          Inr r \<Rightarrow> length (res_events r) \<le> min (nat \<bar>0\<bar>) 100
        | Inl e \<Rightarrow> True)"
proof -
  have a: "answer_ids (queryEventsAsync env0 (query1(''count'' \<mapsto> ''0'')) state1) = Inr (3, [Some 1, Some 2, Some 3])"
    by (simp add: query_defs parseInt_samples sample_defs)
  then have "\<not> (case fst (queryEventsAsync env0 (query1(''count'' \<mapsto> ''0'')) state1) of
          Inr r \<Rightarrow> length (res_events r) \<le> min (nat \<bar>0\<bar>) 100
        | Inl e \<Rightarrow> True)"
    by (auto simp add: answer_ids_def split: sum.splits dest: arg_cong [where f = length])
  with a show ?thesis by (simp add: query1_def parseInt_samples)
qed

text \<open>
  Claim C5, amended. A query that returns has at most \<open>min(|count|, 100)\<close> events when
  \<open>count\<close> parses to an integer other than 0, and at most 100 when \<open>count\<close> is absent, does
  not parse or parses to 0; never more than 100 and never more than \<open>totalCount\<close>.
  \<open>totalCount\<close> is the number of index entries that pass the date and center filter and,
  unless the country is the wildcard, the country filter on the directory.
\<close>

theorem query_pagination:
  assumes "queryEventsAsync en query s = (Inr r, s')"
  shows "length (res_events r) \<le>
           (case parseInt (query ''count'') of None \<Rightarrow> 100
            | Some n \<Rightarrow> if n = 0 then 100 else min (nat \<bar>n\<bar>) 100)
       \<and> length (res_events r) \<le> 100
       \<and> totalCount r =
           length (filter (\<lambda>e. param_or query ''country'' ''*'' = ''*'' \<or>
                     countryOk (directory s') (param_or query ''country'' ''*'') e)
                   (window en query s))
       \<and> length (res_events r) \<le> totalCount r"
proof -
  from queryEventsAsync_Inr [OF assms] obtain evs s1 where
    se: "selectEvents en query s = (Inr evs, s1)" and t: "totalCount r = length evs"
    and d: "directory s' = directory s1" and l: "length (res_events r) \<le> length evs"
    and c: "length (res_events r) \<le>
            (case parseInt (query ''count'') of None \<Rightarrow> 100
             | Some n \<Rightarrow> if n = 0 then 100 else min (nat \<bar>n\<bar>) 100)"
    by blast
  from c have h: "length (res_events r) \<le> 100" by (auto split: option.splits if_splits)
  from selectEvents_frame [OF se] t d c l h show ?thesis by simp
qed

theorem query_pagination_witness:
  "parseInt (query1 ''count'') = Some 1
   \<and> answer_ids (queryEventsAsync env0 query1 state1) = Inr (3, [Some 1])
   \<and> (case fst (queryEventsAsync env0 query1 state1) of
        Inr r \<Rightarrow> length (res_events r) \<le> min (nat \<bar>1\<bar>) 100 \<and> length (res_events r) \<le> totalCount r
      | Inl e \<Rightarrow> False)"
proof -
  have a: "answer_ids (queryEventsAsync env0 query1 state1) = Inr (3, [Some 1])"
    by (simp add: query_defs parseInt_samples sample_defs)
  have p: "parseInt (query1 ''count'') = Some 1"
    by (simp add: query1_def parseInt_samples)
  obtain x s' where q: "queryEventsAsync env0 query1 state1 = (x, s')"
    by (cases "queryEventsAsync env0 query1 state1")
  with a obtain r where x: "x = Inr r" by (cases x) (simp_all add: answer_ids_def)
  from query_pagination [of env0 query1 state1 r s'] q x p
  have "length (res_events r) \<le> min (nat \<bar>1\<bar>) 100 \<and> length (res_events r) \<le> totalCount r"
    by simp
  with a p q x show ?thesis by simp
qed

subsection \<open>The country filter\<close>

text \<open>
  Claim C6 as stated fails twice on the sample index. With \<open>count = 1\<close> the wildcard query
  returns event 1 and the query for country \<open>PL\<close> returns event 2, so the wildcard result
  is not a superset. And the query for country \<open>US\<close> drops event 3, whose center is not
  in the directory at all: an entry is removed that has no resolved center with another
  country.
\<close>

theorem country_filter_counterexample:
  "answer_ids (queryEventsAsync env0 query1 state1) = Inr (3, [Some 1])
   \<and> answer_ids (queryEventsAsync env0 (query1(''country'' \<mapsto> ''PL'')) state1) = Inr (1, [Some 2])
   \<and> fst (selectEvents env0 query1 state1) = Inr [event0, eventW, eventG]
   \<and> fst (selectEvents env0 (query1(''country'' \<mapsto> ''US'')) state1) = Inr [event0]
   \<and> directory (snd (selectEvents env0 (query1(''country'' \<mapsto> ''US'')) state1)) (prop_key (center eventG)) = None"
  by (simp add: query_defs directory_def parseInt_samples sample_defs)

text \<open>
  Claim C6, amended. Take a query with the wildcard country that selects the entries
  \<open>all\<close> (the entries \<open>totalCount\<close> counts, before \<open>skip\<close> and \<open>count\<close>). The same query with a
  country \<open>ctry\<close> returns as well, sees the same directory, and selects exactly the
  entries of \<open>all\<close>, each as often as in \<open>all\<close>, whose center is in the directory with
  country \<open>ctry\<close>: it drops those with another country and those whose center is not in
  the directory. Its selection is a subset of \<open>all\<close> and its \<open>totalCount\<close> is not larger.
  Nothing is said of the pages after \<open>skip\<close> and \<open>count\<close>.
\<close>

theorem country_filter_selection:
  assumes wild: "param_or query ''country'' ''*'' = ''*''" and ne: "ctry \<noteq> []" and ns: "ctry \<noteq> ''*''"
    and sel: "selectEvents en query s = (Inr all, sa)"
  shows "\<exists>some sc ra sa' rc sc'.
           selectEvents en (query(''country'' \<mapsto> ctry)) s = (Inr some, sc)
         \<and> directory sc = directory sa
         \<and> (\<forall>e. count_list some e = (if countryOk (directory sa) ctry e then count_list all e else 0))
         \<and> set some = {e \<in> set all. \<exists>c. directory sa (prop_key (center e)) = Some c \<and> country c = Some ctry}
         \<and> set some \<subseteq> set all
         \<and> queryEventsAsync en query s = (Inr ra, sa') \<and> totalCount ra = length all
         \<and> queryEventsAsync en (query(''country'' \<mapsto> ctry)) s = (Inr rc, sc') \<and> totalCount rc = length some
         \<and> totalCount rc \<le> totalCount ra"
proof -
  let ?W = "window en query s"
  let ?q = "query(''country'' \<mapsto> ctry)"
  from sel wild have f: "fetchCenters en ?W s = (Inr (), sa)" and all: "all = sort_cmp (eventCmp en) ?W"
    unfolding selectEvents_Inr by auto
  define some where "some = sort_cmp (eventCmp en) (filter (countryOk (directory sa) ctry) ?W)"
  have pc: "param_or ?q ''country'' ''*'' = ctry" using ne by (simp add: param_or_def)
  have sel': "selectEvents en ?q s = (Inr some, snd (cachedCenters sa))"
    unfolding selectEvents_Inr using f pc ns by (simp add: window_country some_def)
  have cnt: "\<forall>e. count_list some e = (if countryOk (directory sa) ctry e then count_list all e else 0)"
    by (simp add: some_def all count_sort_cmp count_filter)
  have ok: "\<And>e. countryOk (directory sa) ctry e \<longleftrightarrow>
      (\<exists>c. directory sa (prop_key (center e)) = Some c \<and> country c = Some ctry)"
    by (simp add: countryOk_def split: option.splits)
  have st: "set some = {e \<in> set all. \<exists>c. directory sa (prop_key (center e)) = Some c \<and> country c = Some ctry}"
    by (auto simp add: some_def all set_sort_cmp ok)
  then have sub: "set some \<subseteq> set all" by blast
  have len: "length some \<le> length all" by (simp add: some_def all length_sort_cmp)
  from queryEventsAsync_total [OF sel] obtain ra sa' where
    qa: "queryEventsAsync en query s = (Inr ra, sa')" "totalCount ra = length all" by blast
  from queryEventsAsync_total [OF sel'] obtain rc sc' where
    qc: "queryEventsAsync en ?q s = (Inr rc, sc')" "totalCount rc = length some" by blast
  from sel' cnt st sub qa qc len directory_cachedCenters [of sa] show ?thesis by auto
qed

theorem country_filter_selection_witness:
  "param_or query1 ''country'' ''*'' = ''*''
   \<and> fst (selectEvents env0 query1 state1) = Inr [event0, eventW, eventG]
   \<and> fst (selectEvents env0 (query1(''country'' \<mapsto> ''PL'')) state1) = Inr [eventW]
   \<and> set [eventW] \<subseteq> set [event0, eventW, eventG]
   \<and> answer_ids (queryEventsAsync env0 (query1(''country'' \<mapsto> ''PL'')) state1) = Inr (1, [Some 2])"
proof -
  have w: "param_or query1 ''country'' ''*'' = ''*''" by (simp add: param_or_def query1_def)
  have f: "fst (selectEvents env0 query1 state1) = Inr [event0, eventW, eventG]"
    by (simp add: query_defs sample_defs)
  have sel: "selectEvents env0 query1 state1 =
      (Inr [event0, eventW, eventG], snd (selectEvents env0 query1 state1))"
    by (rule prod_eqI) (simp_all add: f)
  have g: "fst (selectEvents env0 (query1(''country'' \<mapsto> ''PL'')) state1) = Inr [eventW]"
    by (simp add: query_defs sample_defs)
  have a: "answer_ids (queryEventsAsync env0 (query1(''country'' \<mapsto> ''PL'')) state1) = Inr (1, [Some 2])"
    by (simp add: query_defs parseInt_samples sample_defs)
  from country_filter_selection [OF w _ _ sel, of "''PL''"] obtain some sc where
    s: "selectEvents env0 (query1(''country'' \<mapsto> ''PL'')) state1 = (Inr some, sc)"
    and sub: "set some \<subseteq> set [event0, eventW, eventG]"
    by auto
  from s g have "some = [eventW]" by simp
  with sub w f g a show ?thesis by simp
qed

section \<open>Reading a saved event back\<close>

text \<open>
  The example of the specification: an event created without \<open>name\<close> and \<open>address\<close> is
  stored without them, and reading it back fills both in from the center.
\<close>

lemma readEventAsync_inherits_both:
  "fst (post_api_events env0 reqNew state0) = Inr (Json event0)
   \<and> fst (readEventAsync env0 1 (snd (post_api_events env0 reqNew state0))) =
       Inr (Some (event0\<lparr>name := Some ''X Center'', address := Some ''1 Main St'',
         fullcity := Some ''Springfield'', weekdayRange := Some ''Wed'', dateRange := Some ''May 1'',
         combinedRange := Some ''Wed, May 1''\<rparr>))"
  by (simp add: eval_defs env0_def state0_def reqNew_def center0_def event0_def)

text \<open>
  Claim C2. The handler deletes \<open>address\<close> and \<open>name\<close> independently of each other, each when
  it equals the center's; \<open>readEventAsync\<close> fills both in together, and only when
  \<open>address\<close> is missing. Saving \<open>reqAddr\<close> (the center's name, another address) stores no
  \<open>name\<close>, and the event read back has none. Saving \<open>reqName\<close> (another name, the center's
  address) stores no \<open>address\<close>, and the event read back has the center's name in place
  of the saved one.
\<close>

theorem readEventAsync_name_not_restored:
  "name (body reqAddr) = Some ''X Center'' \<and> cname center0 = Some ''X Center''
   \<and> fst (post_api_events env0 reqAddr state0) = Inr (Json (event0\<lparr>address := Some ''2 Side St''\<rparr>))
   \<and> fst (readEventAsync env0 1 (snd (post_api_events env0 reqAddr state0))) =
       Inr (Some (event0\<lparr>address := Some ''2 Side St'',
         fullcity := Some ''Springfield'', weekdayRange := Some ''Wed'', dateRange := Some ''May 1'',
         combinedRange := Some ''Wed, May 1''\<rparr>))
   \<and> name (event0\<lparr>address := Some ''2 Side St'',
         fullcity := Some ''Springfield'', weekdayRange := Some ''Wed'', dateRange := Some ''May 1'',
         combinedRange := Some ''Wed, May 1''\<rparr>) = None
   \<and> name (body reqName) = Some ''Guest House''
   \<and> fst (post_api_events env0 reqName state0) = Inr (Json (event0\<lparr>name := Some ''Guest House''\<rparr>))
   \<and> fst (readEventAsync env0 1 (snd (post_api_events env0 reqName state0))) =
       Inr (Some (event0\<lparr>name := Some ''X Center'', address := Some ''1 Main St'',
         fullcity := Some ''Springfield'', weekdayRange := Some ''Wed'', dateRange := Some ''May 1'',
         combinedRange := Some ''Wed, May 1''\<rparr>))"
  by (simp add: eval_defs env0_def state0_def reqAddr_def reqName_def center0_def event0_def)

end
